theory Spec2Isabelle
  imports Complex_Main "HOL-Library.AList" "HOL-Library.Sublist"
begin

section \<open>Data model: floats, columns and frames\<close>

text \<open>
  The pipeline works on pandas DataFrames. A frame is modelled column by column, as pandas
  stores it: a list of row labels (the index) and an ordered association list from column
  names to typed columns. A float64 cell is a real number or one of the three special
  values; rounding error of the float arithmetic is not modelled, the special values and
  their comparison rules are (every ordered comparison with NaN is false). Signed zeros are
  not modelled: a zero divisor counts as positive zero.

  The columns of a Series that the pipeline reads by name (prices, volume, indicators,
  derived features, signal and label) are numeric, and the association list holds float
  and integer columns only. The two columns of another kind that the pipeline creates,
  the datetime column \<^verbatim>\<open>Date\<close> and the string column \<^verbatim>\<open>Signal_Type\<close>, are fields
  of the frame (\<open>None\<close> when the frame has no such column; a cell is \<open>None\<close> for NaT
  or a missing label). A datetime or string column under another name is outside the
  model.
\<close>

datatype fl = NaN | Num real | PInf | NInf

datatype column =
    FloatCol "fl list"
  | IntCol "int list"

record frame =
  index :: "nat list"
  cols :: "(string \<times> column) list"
  Date :: "int option list option"
  Signal_Type :: "string option list option"

datatype exn = KeyError string | TypeError | ValueError | IndexError | LibraryError

fun fl_lt :: "fl \<Rightarrow> fl \<Rightarrow> bool" where
  "fl_lt NaN _ = False"
| "fl_lt _ NaN = False"
| "fl_lt (Num a) (Num b) = (a < b)"
| "fl_lt _ NInf = False"
| "fl_lt NInf _ = True"
| "fl_lt PInf _ = False"
| "fl_lt (Num a) PInf = True"

definition fl_gt :: "fl \<Rightarrow> fl \<Rightarrow> bool" where
  "fl_gt a b = fl_lt b a"

definition fl_le :: "fl \<Rightarrow> fl \<Rightarrow> bool" where
  "fl_le a b = (a \<noteq> NaN \<and> b \<noteq> NaN \<and> \<not> fl_lt b a)"

fun fl_neg :: "fl \<Rightarrow> fl" where
  "fl_neg NaN = NaN"
| "fl_neg (Num a) = Num (- a)"
| "fl_neg PInf = NInf"
| "fl_neg NInf = PInf"

fun fl_add :: "fl \<Rightarrow> fl \<Rightarrow> fl" where
  "fl_add NaN _ = NaN"
| "fl_add _ NaN = NaN"
| "fl_add (Num a) (Num b) = Num (a + b)"
| "fl_add PInf NInf = NaN"
| "fl_add NInf PInf = NaN"
| "fl_add PInf _ = PInf"
| "fl_add NInf _ = NInf"
| "fl_add (Num a) b = b"

definition fl_sub :: "fl \<Rightarrow> fl \<Rightarrow> fl" where
  "fl_sub a b = fl_add a (fl_neg b)"

fun fl_div :: "fl \<Rightarrow> fl \<Rightarrow> fl" where
  "fl_div NaN _ = NaN"
| "fl_div _ NaN = NaN"
| "fl_div (Num a) (Num b) =
     (if b \<noteq> 0 then Num (a / b)
      else if a = 0 then NaN else if 0 < a then PInf else NInf)"
| "fl_div (Num a) _ = Num 0"
| "fl_div PInf (Num b) = (if 0 \<le> b then PInf else NInf)"
| "fl_div NInf (Num b) = (if 0 \<le> b then NInf else PInf)"
| "fl_div _ _ = NaN"

fun fl_min :: "fl \<Rightarrow> fl \<Rightarrow> fl" where
  "fl_min NaN _ = NaN"
| "fl_min _ NaN = NaN"
| "fl_min a b = (if fl_lt b a then b else a)"

fun fl_max :: "fl \<Rightarrow> fl \<Rightarrow> fl" where
  "fl_max NaN _ = NaN"
| "fl_max _ NaN = NaN"
| "fl_max a b = (if fl_lt a b then b else a)"

subsection \<open>Column and frame access\<close>

fun col_len :: "column \<Rightarrow> nat" where
  "col_len (FloatCol xs) = length xs"
| "col_len (IntCol xs) = length xs"

definition nrows :: "frame \<Rightarrow> nat" where
  "nrows df = length (index df)"

text \<open>\<^verbatim>\<open>df.columns\<close>, as far as membership goes: the names of all columns of the frame.\<close>

definition columns :: "frame \<Rightarrow> string list" where
  "columns df =
     (case Date df of None \<Rightarrow> [] | Some ds \<Rightarrow> [''Date'']) @ map fst (cols df) @
     (case Signal_Type df of None \<Rightarrow> [] | Some ls \<Rightarrow> [''Signal_Type''])"

text \<open>\<^verbatim>\<open>df.empty\<close>: one of the two axes has length zero.\<close>

definition empty :: "frame \<Rightarrow> bool" where
  "empty df = (index df = [] \<or> columns df = [])"

text \<open>\<^verbatim>\<open>pd.DataFrame()\<close>\<close>

definition DataFrame :: frame where
  "DataFrame = \<lparr>index = [], cols = [], Date = None, Signal_Type = None\<rparr>"

text \<open>Every column of a DataFrame is aligned with the index.\<close>

definition wf_frame :: "frame \<Rightarrow> bool" where
  "wf_frame df =
     (list_all (\<lambda>(n, c). col_len c = nrows df) (cols df) \<and>
      (case Date df of None \<Rightarrow> True | Some ds \<Rightarrow> length ds = nrows df) \<and>
      (case Signal_Type df of None \<Rightarrow> True | Some ls \<Rightarrow> length ls = nrows df))"

text \<open>\<^verbatim>\<open>df[name]\<close> for the name of a numeric column; KeyError for a missing column. The
  pipeline reads columns under fixed names, none of them \<^verbatim>\<open>Date\<close> or
  \<^verbatim>\<open>Signal_Type\<close>.\<close>

definition getitem :: "frame \<Rightarrow> string \<Rightarrow> exn + column" where
  "getitem df name =
     (case map_of (cols df) name of None \<Rightarrow> Inl (KeyError name) | Some c \<Rightarrow> Inr c)"

text \<open>
  Arithmetic and ordered comparison work on the values of float and integer columns
  alike (integers are converted).
\<close>

fun as_floats :: "column \<Rightarrow> fl list" where
  "as_floats (FloatCol xs) = xs"
| "as_floats (IntCol xs) = map (\<lambda>i. Num (of_int i)) xs"

definition get_num :: "frame \<Rightarrow> string \<Rightarrow> exn + fl list" where
  "get_num df name = (case getitem df name of Inl e \<Rightarrow> Inl e | Inr c \<Rightarrow> Inr (as_floats c))"

text \<open>Sequencing of a step that may raise with the rest of a \<^verbatim>\<open>try\<close> block.\<close>

definition then_do :: "exn + 'a \<Rightarrow> ('a \<Rightarrow> exn + 'b) \<Rightarrow> exn + 'b" where
  "then_do m f = (case m of Inl e \<Rightarrow> Inl e | Inr x \<Rightarrow> f x)"

text \<open>
  \<^verbatim>\<open>df[name] = values\<close> for numeric values: an existing column is replaced where it
  stands, a new one is appended after the last column.
\<close>

definition setitem :: "string \<Rightarrow> column \<Rightarrow> frame \<Rightarrow> frame" where
  "setitem name c df =
     df\<lparr>cols := AList.update name c (cols df),
        Date := (if name = ''Date'' then None else Date df),
        Signal_Type := (if name = ''Signal_Type'' then None else Signal_Type df)\<rparr>"

text \<open>Boolean indexing \<^verbatim>\<open>df[mask]\<close>: the rows whose mask entry is true, labels kept.\<close>

definition select :: "bool list \<Rightarrow> 'a list \<Rightarrow> 'a list" where
  "select keep xs = map snd (filter fst (zip keep xs))"

fun select_col :: "bool list \<Rightarrow> column \<Rightarrow> column" where
  "select_col keep (FloatCol xs) = FloatCol (select keep xs)"
| "select_col keep (IntCol xs) = IntCol (select keep xs)"

definition select_rows :: "bool list \<Rightarrow> frame \<Rightarrow> frame" where
  "select_rows keep df =
     \<lparr>index = select keep (index df),
      cols = map (\<lambda>(n, c). (n, select_col keep c)) (cols df),
      Date = map_option (select keep) (Date df),
      Signal_Type = map_option (select keep) (Signal_Type df)\<rparr>"

subsection \<open>Series operations used by the pipeline\<close>

text \<open>\<^verbatim>\<open>s.shift(1)\<close> and \<^verbatim>\<open>s.shift(-1)\<close>: the vacated cell is NaN.\<close>

definition shift1 :: "fl list \<Rightarrow> fl list" where
  "shift1 xs = (if xs = [] then [] else NaN # butlast xs)"

definition shift_back :: "fl list \<Rightarrow> fl list" where
  "shift_back xs = (if xs = [] then [] else tl xs @ [NaN])"

fun window_sum :: "fl list \<Rightarrow> fl" where
  "window_sum [] = Num 0"
| "window_sum (x # xs) = fl_add x (window_sum xs)"

definition window_mean :: "fl list \<Rightarrow> fl" where
  "window_mean ws = fl_div (window_sum ws) (Num (real (length ws)))"

fun window_min :: "fl list \<Rightarrow> fl" where
  "window_min [] = NaN"
| "window_min [x] = x"
| "window_min (x # xs) = fl_min x (window_min xs)"

fun window_max :: "fl list \<Rightarrow> fl" where
  "window_max [] = NaN"
| "window_max [x] = x"
| "window_max (x # xs) = fl_max x (window_max xs)"

text \<open>
  \<^verbatim>\<open>s.rolling(w).agg()\<close> with the default \<^verbatim>\<open>min_periods = w\<close>: NaN for the first
  \<open>w - 1\<close> rows and wherever the window holds a NaN (the aggregates above return NaN
  then), otherwise the aggregate of the last \<open>w\<close> values.
\<close>

definition rolling :: "nat \<Rightarrow> (fl list \<Rightarrow> fl) \<Rightarrow> fl list \<Rightarrow> fl list" where
  "rolling w agg xs =
     map (\<lambda>i. if i + 1 < w then NaN else agg (take w (drop (i + 1 - w) xs)))
       [0..<length xs]"

section \<open>Strategy Evaluator (src/analysis/strategy.py)\<close>

text \<open>
  The three thresholds are imported from the configuration module, which is not part of
  the sources at hand; they are parameters here.
\<close>

record strategy_config =
  RSI_OVERSOLD :: real
  STOCH_OVERSOLD :: real
  MIN_SUPPORT_DISTANCE :: real

definition series_and :: "bool list \<Rightarrow> bool list \<Rightarrow> bool list" where
  "series_and xs ys = map2 (\<and>) xs ys"

text \<open>\<^verbatim>\<open>df.loc[mask, 'Signal'] = v\<close>\<close>

definition loc_assign :: "bool list \<Rightarrow> int \<Rightarrow> int list \<Rightarrow> int list" where
  "loc_assign keep v xs = map2 (\<lambda>m x. if m then v else x) keep xs"

definition signal_type :: "int \<Rightarrow> string option" where
  "signal_type s = (if s = 1 then Some ''BUY'' else if s = 2 then Some ''STRONG_BUY'' else None)"

text \<open>
  The body of the \<^verbatim>\<open>try\<close> block. It returns the caller's frame as mutated (the
  \<^verbatim>\<open>Signal\<close> column is assigned in place) together with the extracted copy
  \<^verbatim>\<open>buy_signals\<close>. Every column is read before the first assignment, so an exception
  leaves the caller's frame as it was.
\<close>

definition rsi_oversold :: "strategy_config \<Rightarrow> fl list \<Rightarrow> bool list" where
  "rsi_oversold cfg rsi = map (\<lambda>x. fl_lt x (Num (RSI_OVERSOLD cfg))) rsi"

definition sma_crossover :: "fl list \<Rightarrow> fl list \<Rightarrow> bool list" where
  "sma_crossover sma20 sma50 =
     series_and (map2 fl_gt sma20 sma50) (map2 fl_le (shift1 sma20) (shift1 sma50))"

definition volume_confirm :: "fl list \<Rightarrow> bool list" where
  "volume_confirm volume = map2 fl_gt volume (rolling 20 window_mean volume)"

definition macd_bullish :: "fl list \<Rightarrow> fl list \<Rightarrow> bool list" where
  "macd_bullish macd macds = map2 fl_gt macd macds"

definition stoch_oversold :: "strategy_config \<Rightarrow> fl list \<Rightarrow> bool list" where
  "stoch_oversold cfg stochk = map (\<lambda>x. fl_lt x (Num (STOCH_OVERSOLD cfg))) stochk"

definition price_above_support :: "strategy_config \<Rightarrow> fl list \<Rightarrow> bool list" where
  "price_above_support cfg dts = map (\<lambda>x. fl_gt x (Num (MIN_SUPPORT_DISTANCE cfg))) dts"

text \<open>The source names the four-condition conjunction \<^verbatim>\<open>strong_buy\<close> (signal 1) and the
  six-condition one \<^verbatim>\<open>confirmed_buy\<close> (signal 2).\<close>

definition strong_buy :: "bool list \<Rightarrow> bool list \<Rightarrow> bool list \<Rightarrow> bool list \<Rightarrow> bool list" where
  "strong_buy ro sc vc mb = series_and (series_and (series_and ro sc) vc) mb"

definition confirmed_buy :: "bool list \<Rightarrow> bool list \<Rightarrow> bool list \<Rightarrow> bool list" where
  "confirmed_buy sb so pas = series_and (series_and sb so) pas"

text \<open>The three assignments to \<^verbatim>\<open>df['Signal']\<close>, in the order of the source.\<close>

definition signal_column :: "nat \<Rightarrow> bool list \<Rightarrow> bool list \<Rightarrow> int list" where
  "signal_column n sb cb = loc_assign cb 2 (loc_assign sb 1 (replicate n 0))"

text \<open>\<^verbatim>\<open>df['Signal_Type'] = labels\<close>: the string column takes the place of any column of
  that name.\<close>

definition set_signal_type :: "string option list \<Rightarrow> frame \<Rightarrow> frame" where
  "set_signal_type labels df =
     df\<lparr>cols := AList.delete ''Signal_Type'' (cols df), Signal_Type := Some labels\<rparr>"

text \<open>\<^verbatim>\<open>buy_signals = df[df['Signal'] > 0].copy()\<close>, then the label column on the copy.\<close>

definition extract_buy_signals :: "int list \<Rightarrow> frame \<Rightarrow> frame" where
  "extract_buy_signals signal df =
     (let keep = map (\<lambda>s. 0 < s) signal;
          buy_signals = select_rows keep df
      in set_signal_type (map signal_type (select keep signal)) buy_signals)"

definition strategy_body :: "strategy_config \<Rightarrow> frame \<Rightarrow> exn + frame \<times> frame" where
  "strategy_body cfg df =
     then_do (get_num df ''RSI_14'') (\<lambda>rsi.
     then_do (get_num df ''SMA_20'') (\<lambda>sma20.
     then_do (get_num df ''SMA_50'') (\<lambda>sma50.
     then_do (get_num df ''Volume'') (\<lambda>volume.
     then_do (get_num df ''MACD_12_26_9'') (\<lambda>macd.
     then_do (get_num df ''MACDs_12_26_9'') (\<lambda>macds.
     then_do (get_num df ''STOCHk_14_3_3'') (\<lambda>stochk.
     then_do (get_num df ''Distance_to_Support'') (\<lambda>dts.
     let sb = strong_buy (rsi_oversold cfg rsi) (sma_crossover sma20 sma50)
                (volume_confirm volume) (macd_bullish macd macds);
         cb = confirmed_buy sb (stoch_oversold cfg stochk) (price_above_support cfg dts);
         signal = signal_column (nrows df) sb cb;
         df' = setitem ''Signal'' (IntCol signal) df
     in Inr (df', extract_buy_signals signal df')))))))))"

text \<open>
  \<^verbatim>\<open>apply_enhanced_trading_strategy(df)\<close>. A \<^verbatim>\<open>None\<close> argument takes the same early
  return as an empty frame and is excluded by the argument type. The first component of
  the result is the caller's frame after the call, the second the returned frame.
\<close>

definition apply_enhanced_trading_strategy :: "strategy_config \<Rightarrow> frame \<Rightarrow> frame \<times> frame" where
  "apply_enhanced_trading_strategy cfg df =
     (if empty df \<or> ''RSI_14'' \<notin> set (columns df) then (df, DataFrame)
      else case strategy_body cfg df of
             Inr r \<Rightarrow> r
           | Inl e \<Rightarrow> (df, DataFrame))"

text \<open>A configuration and a frame on which the last row is a strong buy.\<close>

definition example_config :: strategy_config where
  "example_config = \<lparr>RSI_OVERSOLD = 30, STOCH_OVERSOLD = 20, MIN_SUPPORT_DISTANCE = 1/100\<rparr>"

definition crossover_frame :: frame where
  "crossover_frame = \<lparr>index = [0..<21],
     cols = [(''RSI_14'', FloatCol (replicate 21 (Num 25))),
             (''SMA_20'', FloatCol (replicate 20 (Num 1) @ [Num 3])),
             (''SMA_50'', FloatCol (replicate 21 (Num 2))),
             (''Volume'', IntCol (replicate 20 100 @ [200])),
             (''MACD_12_26_9'', FloatCol (replicate 21 (Num 1))),
             (''MACDs_12_26_9'', FloatCol (replicate 21 (Num 0))),
             (''STOCHk_14_3_3'', FloatCol (replicate 21 (Num 10))),
             (''Distance_to_Support'', FloatCol (replicate 21 (Num (1/20))))],
     Date = Some (map (\<lambda>d. Some (int d)) [0..<21]), Signal_Type = None\<rparr>"

text \<open>A step of a \<^verbatim>\<open>try\<close> block that did not raise.\<close>

definition succeeds :: "exn + 'a \<Rightarrow> bool" where
  "succeeds r = (case r of Inl e \<Rightarrow> False | Inr x \<Rightarrow> True)"

text \<open>The eight columns the rules read are present.\<close>

definition strategy_inputs_ok :: "frame \<Rightarrow> bool" where
  "strategy_inputs_ok df =
     list_all (\<lambda>name. succeeds (get_num df name))
       [''RSI_14'', ''SMA_20'', ''SMA_50'', ''Volume'', ''MACD_12_26_9'', ''MACDs_12_26_9'',
        ''STOCHk_14_3_3'', ''Distance_to_Support'']"

text \<open>A frame that passes the guard of the evaluator and lacks the other columns.\<close>

definition rsi_only_frame :: frame where
  "rsi_only_frame = \<lparr>index = [0], cols = [(''RSI_14'', FloatCol [Num 25])],
     Date = None, Signal_Type = None\<rparr>"

section \<open>Model Trainer (src/models/ml_models.py)\<close>

subsection \<open>Frame operations of the trainer\<close>

text \<open>\<^verbatim>\<open>df.dropna()\<close>: a row is kept when none of its cells is missing. An integer column
  has no missing value; NaT and None are the missing values of the datetime and of the
  label column.\<close>

fun col_notna :: "column \<Rightarrow> bool list" where
  "col_notna (FloatCol xs) = map (\<lambda>x. x \<noteq> NaN) xs"
| "col_notna (IntCol xs) = map (\<lambda>x. True) xs"

fun notna_rows :: "nat \<Rightarrow> (string \<times> column) list \<Rightarrow> bool list" where
  "notna_rows n [] = replicate n True"
| "notna_rows n ((name, c) # cs) = series_and (col_notna c) (notna_rows n cs)"

definition opt_notna :: "nat \<Rightarrow> 'a option list option \<Rightarrow> bool list" where
  "opt_notna n col =
     (case col of None \<Rightarrow> replicate n True | Some xs \<Rightarrow> map (\<lambda>x. x \<noteq> None) xs)"

definition notna_mask :: "frame \<Rightarrow> bool list" where
  "notna_mask df =
     series_and (notna_rows (nrows df) (cols df))
       (series_and (opt_notna (nrows df) (Date df)) (opt_notna (nrows df) (Signal_Type df)))"

definition dropna :: "frame \<Rightarrow> frame" where
  "dropna df = select_rows (notna_mask df) df"

text \<open>\<^verbatim>\<open>df[[name, ...]]\<close> for names of numeric columns: the named columns in the order
  asked for; KeyError for a missing one.\<close>

fun getitems_cols :: "(string \<times> column) list \<Rightarrow> string list \<Rightarrow> exn + (string \<times> column) list" where
  "getitems_cols cs [] = Inr []"
| "getitems_cols cs (name # names) =
     (case map_of cs name of
        None \<Rightarrow> Inl (KeyError name)
      | Some c \<Rightarrow> (case getitems_cols cs names of
                    Inl e \<Rightarrow> Inl e
                  | Inr r \<Rightarrow> Inr ((name, c) # r)))"

definition getitems :: "frame \<Rightarrow> string list \<Rightarrow> exn + frame" where
  "getitems df names =
     (case getitems_cols (cols df) names of
        Inl e \<Rightarrow> Inl e
      | Inr cs \<Rightarrow> Inr \<lparr>index = index df, cols = cs, Date = None, Signal_Type = None\<rparr>)"

text \<open>The labels handed to the learning library. The label column is the integer column
  assigned a few lines above, so the second case does not arise.\<close>

fun as_ints :: "column \<Rightarrow> exn + int list" where
  "as_ints (IntCol xs) = Inr xs"
| "as_ints (FloatCol xs) = Inl TypeError"

definition get_ints :: "frame \<Rightarrow> string \<Rightarrow> exn + int list" where
  "get_ints df name = (case getitem df name of Inl e \<Rightarrow> Inl e | Inr c \<Rightarrow> as_ints c)"

subsection \<open>Rounding to two decimals\<close>

text \<open>
  The program rounds float64 values to two decimals (\<^verbatim>\<open>round(x, 2)\<close>,
  \<^verbatim>\<open>DataFrame.round(2)\<close>). Which neighbour a float is rounded to is not a function of
  the exact real value it stands for: a product that is an exact tie as a real number
  lies on either side of the tie as a float. Rounding is therefore a parameter of the
  model. What the statements below use of it is a contract: the result is a multiple of
  1/100 at distance at most 1/200 from the argument (\<open>two_decimals\<close>), and rounding is
  monotone.
\<close>

definition two_decimals :: "(real \<Rightarrow> real) \<Rightarrow> bool" where
  "two_decimals rnd = (\<forall>x. (\<exists>k::int. rnd x = of_int k / 100) \<and> \<bar>rnd x - x\<bar> \<le> 1 / 200)"

text \<open>One function that meets the contract, rounding the exact value half to even. It
  serves to evaluate the model on concrete inputs.\<close>

definition round_half_even :: "real \<Rightarrow> int" where
  "round_half_even x =
     (let f = \<lfloor>x\<rfloor>; d = x - of_int f
      in if d < 1/2 then f else if 1/2 < d then f + 1 else if even f then f else f + 1)"

definition round2 :: "real \<Rightarrow> real" where
  "round2 x = of_int (round_half_even (x * 100)) / 100"

subsection \<open>Label and feature selection\<close>

text \<open>\<^verbatim>\<open>(df['Close'].shift(-1) > df['Close']).astype(int)\<close>: the comparison of the last
  row is against NaN, hence false, and \<^verbatim>\<open>astype(int)\<close> turns it into 0.\<close>

definition target_column :: "fl list \<Rightarrow> int list" where
  "target_column close = map2 (\<lambda>nxt c. if fl_gt nxt c then 1 else 0) (shift_back close) close"

definition ml_features :: "string list" where
  "ml_features =
     [''RSI_14'', ''MACD_12_26_9'', ''MACDs_12_26_9'', ''MACDh_12_26_9'',
      ''STOCHk_14_3_3'', ''STOCHd_14_3_3'', ''WILLR_14'',
      ''BBL_20_2.0'', ''BBM_20_2.0'', ''BBU_20_2.0'', ''BBB_20_2.0'', ''BBP_20_2.0'',
      ''ATRr_14'', ''AD'', ''OBV'',
      ''Price_Change'', ''Volume_Change'', ''High_Low_Pct'', ''Open_Close_Pct'',
      ''Distance_to_Support'', ''Distance_to_Resistance'']"

definition available_features :: "frame \<Rightarrow> string list" where
  "available_features df = filter (\<lambda>f. f \<in> set (columns df)) ml_features"

text \<open>\<^verbatim>\<open>ml_df = df[available_features + ['Target']].dropna()\<close>: the rows handed to the
  train/test split.\<close>

definition ml_frame :: "frame \<Rightarrow> string list \<Rightarrow> exn + frame" where
  "ml_frame df feats = then_do (getitems df (feats @ [''Target''])) (\<lambda>sub. Inr (dropna sub))"

text \<open>Row \<open>i\<close> of the frame holds a value in each of the named columns.\<close>

definition row_complete :: "frame \<Rightarrow> string list \<Rightarrow> nat \<Rightarrow> bool" where
  "row_complete df names i =
     list_all (\<lambda>name. case map_of (cols df) name of None \<Rightarrow> True | Some c \<Rightarrow> col_notna c ! i)
       names"

subsection \<open>Metrics\<close>

text \<open>
  \<^verbatim>\<open>accuracy_score\<close> and the weighted averages of \<^verbatim>\<open>classification_report\<close>, by their
  definitions: the fraction of matching predictions, and the per-class precision, recall
  and F1 (0 where the denominator is 0) averaged with the class supports as weights. Both
  raise ValueError on label vectors of different lengths.
\<close>

definition accuracy_score :: "int list \<Rightarrow> int list \<Rightarrow> exn + real" where
  "accuracy_score y_true y_pred =
     (if length y_true \<noteq> length y_pred then Inl ValueError
      else Inr (real (length (filter (\<lambda>(t, p). t = p) (zip y_true y_pred)))
                / real (length y_true)))"

definition true_positives :: "int list \<Rightarrow> int list \<Rightarrow> int \<Rightarrow> nat" where
  "true_positives y_true y_pred c = length (filter (\<lambda>(t, p). t = c \<and> p = c) (zip y_true y_pred))"

definition support :: "int list \<Rightarrow> int \<Rightarrow> nat" where
  "support ys c = length (filter (\<lambda>y. y = c) ys)"

definition class_precision :: "int list \<Rightarrow> int list \<Rightarrow> int \<Rightarrow> real" where
  "class_precision y_true y_pred c =
     (if support y_pred c = 0 then 0
      else real (true_positives y_true y_pred c) / real (support y_pred c))"

definition class_recall :: "int list \<Rightarrow> int list \<Rightarrow> int \<Rightarrow> real" where
  "class_recall y_true y_pred c =
     (if support y_true c = 0 then 0
      else real (true_positives y_true y_pred c) / real (support y_true c))"

definition class_f1 :: "int list \<Rightarrow> int list \<Rightarrow> int \<Rightarrow> real" where
  "class_f1 y_true y_pred c =
     (if support y_true c + support y_pred c = 0 then 0
      else 2 * real (true_positives y_true y_pred c)
           / real (support y_true c + support y_pred c))"

definition weighted_avg :: "(int \<Rightarrow> real) \<Rightarrow> int list \<Rightarrow> int list \<Rightarrow> real" where
  "weighted_avg metric y_true y_pred =
     (let labels = remdups (y_true @ y_pred)
      in sum_list (map (\<lambda>c. real (support y_true c) * metric c) labels)
         / sum_list (map (\<lambda>c. real (support y_true c)) labels))"

record report =
  avg_precision :: real
  avg_recall :: real
  avg_f1 :: real

definition classification_report :: "int list \<Rightarrow> int list \<Rightarrow> exn + report" where
  "classification_report y_true y_pred =
     (if length y_true \<noteq> length y_pred then Inl ValueError
      else Inr \<lparr>avg_precision = weighted_avg (class_precision y_true y_pred) y_true y_pred,
                avg_recall = weighted_avg (class_recall y_true y_pred) y_true y_pred,
                avg_f1 = weighted_avg (class_f1 y_true y_pred) y_true y_pred\<rparr>)"

subsection \<open>The learning library and the training loop\<close>

text \<open>
  The splitter, the scaler and the two classifiers belong to scikit-learn. They are
  parameters: any of them may raise, and a fitted model is a value of an arbitrary type
  \<open>'m\<close>. \<open>fit_predict name X_train y_train X_test\<close> stands for \<^verbatim>\<open>model.fit\<close> followed
  by \<^verbatim>\<open>model.predict\<close> of the classifier registered under \<open>name\<close>;
  \<open>feature_importances\<close> is \<open>None\<close> for a model without the attribute
  \<^verbatim>\<open>feature_importances_\<close>. \<open>round_2dp\<close> stands for \<^verbatim>\<open>round(x, 2)\<close> on the
  float64 accuracy.
\<close>

record 'm sklearn =
  split :: "frame \<Rightarrow> int list \<Rightarrow> exn + (frame \<times> frame \<times> int list \<times> int list)"
  standard_scale :: "frame \<Rightarrow> frame \<Rightarrow> exn + (frame \<times> frame)"
  fit_predict :: "string \<Rightarrow> frame \<Rightarrow> int list \<Rightarrow> frame \<Rightarrow> exn + ('m \<times> int list)"
  feature_importances :: "'m \<Rightarrow> real list option"
  round_2dp :: "real \<Rightarrow> real"

text \<open>\<^verbatim>\<open>train_test_split\<close> returns aligned parts and raises ValueError rather than return
  an empty train or test set; the parameter is held to that.\<close>

definition train_test_split ::
  "'m sklearn \<Rightarrow> frame \<Rightarrow> int list \<Rightarrow> exn + (frame \<times> frame \<times> int list \<times> int list)" where
  "train_test_split sk X y =
     then_do (split sk X y) (\<lambda>(X_train, X_test, y_train, y_test).
       if y_train = [] \<or> y_test = [] \<or> nrows X_train \<noteq> length y_train
          \<or> nrows X_test \<noteq> length y_test
       then Inl ValueError
       else Inr (X_train, X_test, y_train, y_test))"

record 'm model_result =
  accuracy :: real
  precision :: real
  recall :: real
  f1_score :: real
  model :: 'm
  with_scaler :: bool

record 'm details =
  model_results :: "(string \<times> 'm model_result) list"
  feature_importance :: "(string \<times> real) list"
  features_used :: "string list"

text \<open>The return value: the model or \<^verbatim>\<open>None\<close>, the accuracy, and the details, where
  \<open>None\<close> stands for the empty dictionary.\<close>

type_synonym 'm train_result = "'m option \<times> real \<times> 'm details option"

definition empty_result :: "'m train_result" where
  "empty_result = (None, 0, None)"

record 'm split_data =
  X_train :: frame
  X_test :: frame
  y_train :: "int list"
  y_test :: "int list"
  X_train_scaled :: frame
  X_test_scaled :: frame

text \<open>The statements of the inner \<^verbatim>\<open>try\<close> block that may raise: fit, predict and the two
  metrics.\<close>

definition evaluate_model :: "'m sklearn \<Rightarrow> 'm split_data \<Rightarrow> string \<Rightarrow> exn + 'm model_result" where
  "evaluate_model sk d name =
     then_do (if name = ''Logistic Regression''
              then fit_predict sk name (X_train_scaled d) (y_train d) (X_test_scaled d)
              else fit_predict sk name (X_train d) (y_train d) (X_test d)) (\<lambda>(m, y_pred).
     then_do (accuracy_score (y_test d) y_pred) (\<lambda>acc.
     then_do (classification_report (y_test d) y_pred) (\<lambda>rep.
       Inr \<lparr>accuracy = acc, precision = avg_precision rep, recall = avg_recall rep,
            f1_score = avg_f1 rep, model = m,
            with_scaler = (name = ''Logistic Regression'')\<rparr>)))"

record 'm loop_state =
  results :: "(string \<times> 'm model_result) list"
  best_model :: "'m option"
  best_accuracy :: real

definition loop_init :: "'m loop_state" where
  "loop_init = \<lparr>results = [], best_model = None, best_accuracy = 0\<rparr>"

text \<open>One iteration of \<^verbatim>\<open>for name, model in models.items()\<close>: a model that raises is
  skipped.\<close>

definition train_step :: "'m sklearn \<Rightarrow> 'm split_data \<Rightarrow> 'm loop_state \<Rightarrow> string \<Rightarrow> 'm loop_state" where
  "train_step sk d st name =
     (case evaluate_model sk d name of
        Inl e \<Rightarrow> st
      | Inr r \<Rightarrow>
          let st' = st\<lparr>results := AList.update name r (results st)\<rparr>
          in if best_accuracy st' < accuracy r
             then st'\<lparr>best_accuracy := accuracy r, best_model := Some (model r)\<rparr>
             else st')"

definition model_names :: "string list" where
  "model_names = [''Decision Tree'', ''Logistic Regression'']"

definition train_loop :: "'m sklearn \<Rightarrow> 'm split_data \<Rightarrow> 'm loop_state" where
  "train_loop sk d = foldl (train_step sk d) loop_init model_names"

text \<open>\<^verbatim>\<open>dict(sorted(zip(features, importances), key = weight, reverse=True)[:10])\<close>;
  the sort is stable.\<close>

definition top_importances :: "string list \<Rightarrow> real list \<Rightarrow> (string \<times> real) list" where
  "top_importances feats ws = take 10 (sort_key (\<lambda>(f, w). - w) (zip feats ws))"

text \<open>The outer \<^verbatim>\<open>try\<close> block from the preparation of the data on.\<close>

definition prepare_split :: "'m sklearn \<Rightarrow> frame \<Rightarrow> string list \<Rightarrow> exn + 'm split_data" where
  "prepare_split sk df feats =
     then_do (ml_frame df feats) (\<lambda>ml_df.
     then_do (getitems ml_df feats) (\<lambda>X.
     then_do (get_ints ml_df ''Target'') (\<lambda>y.
     then_do (train_test_split sk X y) (\<lambda>(Xtr, Xte, ytr, yte).
     then_do (standard_scale sk Xtr Xte) (\<lambda>(Xtr_s, Xte_s).
       Inr \<lparr>X_train = Xtr, X_test = Xte, y_train = ytr, y_test = yte,
            X_train_scaled = Xtr_s, X_test_scaled = Xte_s\<rparr>)))))"

definition select_best :: "'m sklearn \<Rightarrow> string list \<Rightarrow> 'm loop_state \<Rightarrow> 'm train_result" where
  "select_best sk feats st =
     (case best_model st of
        None \<Rightarrow> empty_result
      | Some bm \<Rightarrow>
          (Some bm, round_2dp sk (best_accuracy st * 100),
           Some \<lparr>model_results = results st,
                 feature_importance =
                   (case feature_importances sk bm of
                      None \<Rightarrow> []
                    | Some ws \<Rightarrow> top_importances feats ws),
                 features_used = feats\<rparr>))"

text \<open>
  \<^verbatim>\<open>train_ensemble_models(df)\<close>. The first component of the result is the caller's frame
  after the call (the \<^verbatim>\<open>Target\<close> column is assigned in place), the second the returned
  triple.
\<close>

definition train_ensemble_models :: "'m sklearn \<Rightarrow> frame \<Rightarrow> frame \<times> 'm train_result" where
  "train_ensemble_models sk df =
     (if empty df then (df, empty_result)
      else case get_num df ''Close'' of
             Inl e \<Rightarrow> (df, empty_result)
           | Inr close \<Rightarrow>
               let df' = setitem ''Target'' (IntCol (target_column close)) df;
                   feats = available_features df'
               in if length feats < 5 then (df', empty_result)
                  else (df', case prepare_split sk df' feats of
                              Inl e \<Rightarrow> empty_result
                            | Inr d \<Rightarrow> select_best sk feats (train_loop sk d)))"

text \<open>The call reaches the training loop with the feature list \<open>feats\<close> and the split
  data \<open>d\<close>: the frame is not empty, the label and at least five features are there, and
  neither the preparation of the data nor the split nor the scaler raises.\<close>

definition reaches_loop :: "'m sklearn \<Rightarrow> frame \<Rightarrow> string list \<Rightarrow> 'm split_data \<Rightarrow> bool" where
  "reaches_loop sk df feats d =
     (\<not> empty df \<and>
      (\<exists>close. get_num df ''Close'' = Inr close \<and>
         feats = available_features (setitem ''Target'' (IntCol (target_column close)) df) \<and>
         5 \<le> length feats \<and>
         prepare_split sk (setitem ''Target'' (IntCol (target_column close)) df) feats = Inr d))"

subsection \<open>A small training run\<close>

text \<open>
  A stand-in for the learning library, used to evaluate the trainer on a concrete frame:
  the split returns the whole data as both parts, the scaler is the identity, both
  classifiers predict 0 on every row (the fitted models are told apart by a number), and
  rounding is \<open>round2\<close>.
\<close>

definition constant_classifiers :: "nat sklearn" where
  "constant_classifiers =
     \<lparr>split = (\<lambda>X y. Inr (X, X, y, y)),
      standard_scale = (\<lambda>a b. Inr (a, b)),
      fit_predict = (\<lambda>name Xtr ytr Xte.
         Inr (if name = ''Decision Tree'' then 1 else 2, replicate (nrows Xte) 0)),
      feature_importances = (\<lambda>m. if m = 1 then Some [5, 1, 4, 2, 3] else None),
      round_2dp = round2\<rparr>"

definition training_frame :: frame where
  "training_frame = \<lparr>index = [0, 1, 2],
     cols = [(''Close'', FloatCol [Num 1, Num 2, Num 1]),
             (''RSI_14'', FloatCol [Num 40, Num 50, Num 60]),
             (''AD'', FloatCol [Num 1, Num 2, Num 3]),
             (''OBV'', FloatCol [Num 10, Num 20, Num 10]),
             (''Price_Change'', FloatCol [Num 0, Num 1, Num (-1/2)]),
             (''Volume_Change'', FloatCol [Num 0, Num 0, Num 0])],
     Date = None, Signal_Type = None\<rparr>"

definition training_features :: "string list" where
  "training_features = [''RSI_14'', ''AD'', ''OBV'', ''Price_Change'', ''Volume_Change'']"

definition training_X :: frame where
  "training_X = \<lparr>index = [0, 1, 2],
     cols = [(''RSI_14'', FloatCol [Num 40, Num 50, Num 60]),
             (''AD'', FloatCol [Num 1, Num 2, Num 3]),
             (''OBV'', FloatCol [Num 10, Num 20, Num 10]),
             (''Price_Change'', FloatCol [Num 0, Num 1, Num (-1/2)]),
             (''Volume_Change'', FloatCol [Num 0, Num 0, Num 0])],
     Date = None, Signal_Type = None\<rparr>"

definition training_split :: "nat split_data" where
  "training_split = \<lparr>X_train = training_X, X_test = training_X,
     y_train = [1, 0, 0], y_test = [1, 0, 0],
     X_train_scaled = training_X, X_test_scaled = training_X\<rparr>"

section \<open>Orchestrator (app.py)\<close>

text \<open>
  \<^verbatim>\<open>process_stock\<close> calls the five stages in sequence. The orchestrator treats them as
  black boxes, so they are parameters here: each takes what the source passes to it and
  either raises or returns. The two stages that assign columns to the frame in place
  (strategy and training) return the frame after the call as well. \<open>'ml\<close> is the triple
  returned by the trainer, \<open>'chart\<close> a chart handle.
\<close>

record ('ml, 'chart) stages =
  fetch_stage :: "string \<Rightarrow> bool \<Rightarrow> exn + frame option"
  indicator_stage :: "frame \<Rightarrow> exn + frame option"
  strategy_stage :: "frame \<Rightarrow> exn + frame \<times> frame"
  training_stage :: "frame \<Rightarrow> exn + frame \<times> 'ml"
  chart_stage :: "frame \<Rightarrow> frame \<Rightarrow> string \<Rightarrow> exn + 'chart option"

text \<open>
  The value returned by \<^verbatim>\<open>process_stock\<close> is a tuple of three \<^verbatim>\<open>None\<close>s from the two
  early returns, and a tuple of four components from the last return and from the
  exception handler.
\<close>

datatype ('ml, 'chart) stock_result =
    Triple
  | Quad "frame option" "frame option" "'ml option" "'chart option"

definition process_stock_body ::
  "('ml, 'chart) stages \<Rightarrow> string \<Rightarrow> bool \<Rightarrow> exn + ('ml, 'chart) stock_result" where
  "process_stock_body st ticker use_mock_data =
     then_do (fetch_stage st ticker use_mock_data) (\<lambda>stock_data.
       case stock_data of
         None \<Rightarrow> Inr Triple
       | Some sd \<Rightarrow>
           if empty sd then Inr Triple
           else
             then_do (indicator_stage st sd) (\<lambda>data_with_indicators.
               case data_with_indicators of
                 None \<Rightarrow> Inr Triple
               | Some dwi \<Rightarrow>
                   then_do (strategy_stage st dwi) (\<lambda>(dwi1, signals).
                   then_do (training_stage st dwi1) (\<lambda>(dwi2, ml_results).
                   then_do (chart_stage st dwi2 signals ticker) (\<lambda>chart.
                     Inr (Quad (Some dwi2) (Some signals) (Some ml_results) chart))))))"

definition process_stock ::
  "('ml, 'chart) stages \<Rightarrow> string \<Rightarrow> bool \<Rightarrow> ('ml, 'chart) stock_result" where
  "process_stock st ticker use_mock_data =
     (case process_stock_body st ticker use_mock_data of
        Inl e \<Rightarrow> Quad None None None None
      | Inr r \<Rightarrow> r)"

text \<open>
  What \<^verbatim>\<open>run_trading_algorithm\<close> changes: the progress bar, the results stored per ticker
  in the session state, the charts shown, the counter, and the completion flag.
\<close>

record ('ml, 'chart) session =
  progress :: real
  ml_results :: "(string \<times> 'ml) list"
  charts_shown :: "'chart list"
  successful_stocks :: nat
  results_generated :: bool

definition session_init :: "('ml, 'chart) session" where
  "session_init = \<lparr>progress = 0, ml_results = [], charts_shown = [], successful_stocks = 0,
     results_generated = False\<rparr>"

text \<open>A run either reaches its last statement or is left by an exception, in the state
  reached by then.\<close>

datatype ('ml, 'chart) outcome =
    Completed "('ml, 'chart) session"
  | Aborted exn "('ml, 'chart) session"

text \<open>
  One iteration of the loop over \<^verbatim>\<open>enumerate(selected_tickers)\<close>. The result of
  \<^verbatim>\<open>process_stock\<close> is a tuple, never \<^verbatim>\<open>None\<close>, so the test \<^verbatim>\<open>results is not None\<close>
  always passes and the result is unpacked into four names: a tuple of three raises
  ValueError there, outside any \<^verbatim>\<open>try\<close> block.
\<close>

definition loop_body ::
  "('ml, 'chart) stages \<Rightarrow> bool \<Rightarrow> nat \<Rightarrow> ('ml, 'chart) session \<Rightarrow> nat \<times> string \<Rightarrow>
   exn + ('ml, 'chart) session" where
  "loop_body st use_mock_data n s it =
     (case it of (i, ticker) \<Rightarrow>
        let s1 = s\<lparr>progress := real (i + 1) / real n\<rparr>
        in case process_stock st ticker use_mock_data of
             Triple \<Rightarrow> Inl ValueError
           | Quad data signals ml chart \<Rightarrow>
               let s2 = (case ml of
                           None \<Rightarrow> s1
                         | Some r \<Rightarrow> s1\<lparr>ml_results := AList.update ticker r (ml_results s1)\<rparr>);
                   s3 = (case chart of
                           None \<Rightarrow> s2
                         | Some c \<Rightarrow> s2\<lparr>charts_shown := charts_shown s2 @ [c]\<rparr>)
               in Inr (s3\<lparr>successful_stocks := successful_stocks s3 + 1\<rparr>))"

fun run_loop ::
  "('ml, 'chart) stages \<Rightarrow> bool \<Rightarrow> nat \<Rightarrow> ('ml, 'chart) session \<Rightarrow> (nat \<times> string) list \<Rightarrow>
   ('ml, 'chart) outcome" where
  "run_loop st use_mock_data n s [] = Completed s"
| "run_loop st use_mock_data n s (it # its) =
     (case loop_body st use_mock_data n s it of
        Inl e \<Rightarrow> Aborted e (s\<lparr>progress := real (fst it + 1) / real n\<rparr>)
      | Inr s' \<Rightarrow> run_loop st use_mock_data n s' its)"

text \<open>\<^verbatim>\<open>run_trading_algorithm(selected_tickers, use_mock_data, initial_capital)\<close>, on a
  fresh session; the capital only fills a summary that nothing reads.\<close>

definition run_trading_algorithm ::
  "('ml, 'chart) stages \<Rightarrow> string list \<Rightarrow> bool \<Rightarrow> ('ml, 'chart) outcome" where
  "run_trading_algorithm st selected_tickers use_mock_data =
     (case run_loop st use_mock_data (length selected_tickers) session_init
             (enumerate 0 selected_tickers) of
        Aborted e s \<Rightarrow> Aborted e s
      | Completed s \<Rightarrow> Completed (s\<lparr>results_generated := True, progress := 1\<rparr>))"

subsection \<open>A run with a ticker whose indicators fail\<close>

text \<open>
  Stages for evaluation: the fetch returns a one-row frame, the Indicator Engine returns
  its failure value \<^verbatim>\<open>None\<close> for the frame of the first ticker and the frame itself
  otherwise, and the later stages return fixed values.
\<close>

definition one_row_frame :: "int \<Rightarrow> frame" where
  "one_row_frame v = \<lparr>index = [0], cols = [(''Close'', IntCol [v])],
     Date = None, Signal_Type = None\<rparr>"

definition failing_first_stages :: "(nat, nat) stages" where
  "failing_first_stages =
     \<lparr>fetch_stage = (\<lambda>ticker use_mock.
        Inr (Some (one_row_frame (if ticker = ''RELIANCE.NS'' then 1 else 2)))),
      indicator_stage = (\<lambda>df. Inr (if df = one_row_frame 1 then None else Some df)),
      strategy_stage = (\<lambda>df. Inr (df, DataFrame)),
      training_stage = (\<lambda>df. Inr (df, 7)),
      chart_stage = (\<lambda>df signals ticker. Inr (Some 9))\<rparr>"

section \<open>Properties of the frame operations and of the Strategy Evaluator\<close>

lemma get_num_length:
  "wf_frame df \<Longrightarrow> get_num df name = Inr xs \<Longrightarrow> length xs = nrows df"
proof -
  assume wf: "wf_frame df" and g: "get_num df name = Inr xs"
  from g obtain c where c: "map_of (cols df) name = Some c" and a: "as_floats c = xs"
    by (auto simp: get_num_def getitem_def split: option.splits)
  from c have "(name, c) \<in> set (cols df)" by (rule map_of_SomeD)
  with wf have "col_len c = nrows df" by (auto simp: wf_frame_def list_all_iff)
  with a show ?thesis by (cases c) auto
qed

lemma length_series_and [simp]: "length (series_and xs ys) = min (length xs) (length ys)"
  by (simp add: series_and_def)

lemma nth_series_and:
  "i < length xs \<Longrightarrow> i < length ys \<Longrightarrow> series_and xs ys ! i = (xs ! i \<and> ys ! i)"
  by (simp add: series_and_def)

lemma length_loc_assign [simp]: "length (loc_assign keep v xs) = min (length keep) (length xs)"
  by (simp add: loc_assign_def)

lemma nth_loc_assign:
  "i < length keep \<Longrightarrow> i < length xs \<Longrightarrow>
   loc_assign keep v xs ! i = (if keep ! i then v else xs ! i)"
  by (simp add: loc_assign_def)

lemma length_shift1 [simp]: "length (shift1 xs) = length xs"
  by (simp add: shift1_def)

lemma nth_shift1:
  "i < length xs \<Longrightarrow> shift1 xs ! i = (if i = 0 then NaN else xs ! (i - 1))"
  by (cases i) (auto simp: shift1_def nth_butlast)

lemma length_rolling [simp]: "length (rolling w agg xs) = length xs"
  by (simp add: rolling_def)

lemma nth_rolling:
  "i < length xs \<Longrightarrow>
   rolling w agg xs ! i = (if i + 1 < w then NaN else agg (take w (drop (i + 1 - w) xs)))"
  by (simp add: rolling_def)

lemma fl_lt_NaN_right [simp]: "fl_lt x NaN = False"
  by (cases x) auto

lemma fl_gt_NaN [simp]: "fl_gt x NaN = False" "fl_gt NaN x = False"
  by (simp_all add: fl_gt_def)

lemma fl_le_NaN [simp]: "fl_le NaN x = False" "fl_le x NaN = False"
  by (simp_all add: fl_le_def)

text \<open>Row-wise reading of the four masks.\<close>

lemma nth_rsi_oversold:
  "i < length rsi \<Longrightarrow> rsi_oversold cfg rsi ! i = fl_lt (rsi ! i) (Num (RSI_OVERSOLD cfg))"
  by (simp add: rsi_oversold_def)

lemma nth_sma_crossover:
  "i < length sma20 \<Longrightarrow> length sma50 = length sma20 \<Longrightarrow>
   sma_crossover sma20 sma50 ! i =
     (fl_gt (sma20 ! i) (sma50 ! i) \<and> 0 < i \<and> fl_le (sma20 ! (i - 1)) (sma50 ! (i - 1)))"
  by (auto simp: sma_crossover_def nth_series_and nth_shift1)

lemma nth_volume_confirm:
  "i < length volume \<Longrightarrow>
   volume_confirm volume ! i =
     (19 \<le> i \<and> fl_gt (volume ! i) (window_mean (take 20 (drop (i - 19) volume))))"
  by (auto simp: volume_confirm_def nth_rolling)

lemma nth_macd_bullish:
  "i < length macd \<Longrightarrow> i < length macds \<Longrightarrow>
   macd_bullish macd macds ! i = fl_gt (macd ! i) (macds ! i)"
  by (simp add: macd_bullish_def)

lemma length_masks [simp]:
  "length (rsi_oversold cfg rsi) = length rsi"
  "length (sma_crossover sma20 sma50) = min (length sma20) (length sma50)"
  "length (volume_confirm volume) = length volume"
  "length (macd_bullish macd macds) = min (length macd) (length macds)"
  "length (stoch_oversold cfg stochk) = length stochk"
  "length (price_above_support cfg dts) = length dts"
  by (simp_all add: rsi_oversold_def sma_crossover_def volume_confirm_def macd_bullish_def
      stoch_oversold_def price_above_support_def)

lemma length_strong_buy [simp]:
  "length (strong_buy a b c d) = min (min (min (length a) (length b)) (length c)) (length d)"
  by (simp add: strong_buy_def)

lemma length_confirmed_buy [simp]:
  "length (confirmed_buy a b c) = min (min (length a) (length b)) (length c)"
  by (simp add: confirmed_buy_def)

lemma nth_strong_buy:
  "i < length a \<Longrightarrow> i < length b \<Longrightarrow> i < length c \<Longrightarrow> i < length d \<Longrightarrow>
   strong_buy a b c d ! i = (a ! i \<and> b ! i \<and> c ! i \<and> d ! i)"
  by (simp add: strong_buy_def nth_series_and)

lemma nth_confirmed_buy:
  "i < length a \<Longrightarrow> i < length b \<Longrightarrow> i < length c \<Longrightarrow>
   confirmed_buy a b c ! i = (a ! i \<and> b ! i \<and> c ! i)"
  by (simp add: confirmed_buy_def nth_series_and)

lemma length_signal_column [simp]:
  "length (signal_column n sb cb) = min (length cb) (min (length sb) n)"
  by (simp add: signal_column_def)

lemma nth_signal_column:
  "i < n \<Longrightarrow> i < length sb \<Longrightarrow> i < length cb \<Longrightarrow>
   signal_column n sb cb ! i = (if cb ! i then 2 else if sb ! i then 1 else 0)"
  by (simp add: signal_column_def nth_loc_assign)

lemma set_signal_column: "set (signal_column n sb cb) \<subseteq> {0, 1, 2}"
proof
  fix s assume "s \<in> set (signal_column n sb cb)"
  then obtain i where i: "i < length (signal_column n sb cb)" and s: "s = signal_column n sb cb ! i"
    by (auto simp: in_set_conv_nth)
  from i have "i < n" "i < length sb" "i < length cb" by simp_all
  with s show "s \<in> {0, 1, 2}" by (simp add: nth_signal_column)
qed

lemma strategy_body_Inr:
  assumes "get_num df ''RSI_14'' = Inr rsi"
    and "get_num df ''SMA_20'' = Inr sma20"
    and "get_num df ''SMA_50'' = Inr sma50"
    and "get_num df ''Volume'' = Inr volume"
    and "get_num df ''MACD_12_26_9'' = Inr macd"
    and "get_num df ''MACDs_12_26_9'' = Inr macds"
    and "get_num df ''STOCHk_14_3_3'' = Inr stochk"
    and "get_num df ''Distance_to_Support'' = Inr dts"
    and "sb = strong_buy (rsi_oversold cfg rsi) (sma_crossover sma20 sma50)
                (volume_confirm volume) (macd_bullish macd macds)"
    and "signal = signal_column (nrows df) sb
           (confirmed_buy sb (stoch_oversold cfg stochk) (price_above_support cfg dts))"
  shows "strategy_body cfg df =
           Inr (setitem ''Signal'' (IntCol signal) df,
                extract_buy_signals signal (setitem ''Signal'' (IntCol signal) df))"
  using assms by (simp add: strategy_body_def then_do_def Let_def)

lemma set_columns:
  "set (columns df) =
     (if Date df = None then {} else {''Date''}) \<union> fst ` set (cols df) \<union>
     (if Signal_Type df = None then {} else {''Signal_Type''})"
  by (auto simp: columns_def split: option.splits)

lemma get_num_in_columns: "get_num df name = Inr xs \<Longrightarrow> name \<in> set (columns df)"
proof -
  assume "get_num df name = Inr xs"
  then obtain c where "map_of (cols df) name = Some c"
    by (auto simp: get_num_def getitem_def split: option.splits)
  then have "(name, c) \<in> set (cols df)" by (rule map_of_SomeD)
  then have "name \<in> fst ` set (cols df)" by force
  then show ?thesis by (simp add: set_columns)
qed

lemma getitem_setitem_same [simp]: "getitem (setitem name c df) name = Inr c"
  by (simp add: getitem_def setitem_def update_conv')

lemma strategy_body_Inl:
  "\<not> strategy_inputs_ok df \<Longrightarrow> \<exists>e. strategy_body cfg df = Inl e"
  unfolding strategy_inputs_ok_def strategy_body_def then_do_def
  by (auto split: sum.splits simp: succeeds_def)

lemma strategy_body_ok:
  assumes "strategy_inputs_ok df"
  shows "\<exists>sb cb. strategy_body cfg df =
           Inr (setitem ''Signal'' (IntCol (signal_column (nrows df) sb cb)) df,
                extract_buy_signals (signal_column (nrows df) sb cb)
                  (setitem ''Signal'' (IntCol (signal_column (nrows df) sb cb)) df))"
  using assms unfolding strategy_inputs_ok_def strategy_body_def then_do_def
  by (auto split: sum.splits simp: Let_def succeeds_def)

lemma columns_setitem: "set (columns (setitem name c df)) = insert name (set (columns df))"
proof -
  have "fst ` set (AList.update name c (cols df)) = insert name (fst ` set (cols df))"
    using dom_update[of name c "cols df"] by (simp add: dom_map_of_conv_image_fst update_conv')
  then show ?thesis by (auto simp: set_columns setitem_def)
qed

lemma map_of_setitem_other:
  "name' \<noteq> name \<Longrightarrow> map_of (cols (setitem name c df)) name' = map_of (cols df) name'"
  by (simp add: setitem_def update_conv')

lemma index_setitem [simp]: "index (setitem name c df) = index df"
  by (simp add: setitem_def)

lemma nrows_setitem [simp]: "nrows (setitem name c df) = nrows df"
  by (simp add: nrows_def)

lemma set_alist_update: "set (AList.update k v al) \<subseteq> insert (k, v) (set al)"
  by (induct al) auto

lemma wf_setitem:
  assumes "wf_frame df" and "col_len c = nrows df"
  shows "wf_frame (setitem name c df)"
proof -
  have "set (AList.update name c (cols df)) \<subseteq> insert (name, c) (set (cols df))"
    by (rule set_alist_update)
  with assms show ?thesis
    by (auto simp: wf_frame_def list_all_iff setitem_def nrows_def split: option.splits)
qed

lemma columns_select_rows [simp]: "columns (select_rows keep df) = columns df"
  by (simp add: columns_def select_rows_def case_prod_unfold comp_def split: option.splits)

lemma fields_setitem_other:
  "name \<noteq> ''Date'' \<Longrightarrow> Date (setitem name c df) = Date df"
  "name \<noteq> ''Signal_Type'' \<Longrightarrow> Signal_Type (setitem name c df) = Signal_Type df"
  by (simp_all add: setitem_def)

subsection \<open>C5: strong buy implies standard buy\<close>

text \<open>
  C5. Whenever the evaluation runs (the frame is non-empty and the eight columns the rules
  read are numeric), the frame carries a \<^verbatim>\<open>Signal\<close> column after the call, and every
  row whose signal is 2 satisfies the four standard-buy conditions on that row: RSI below
  the oversold threshold; SMA20 above SMA50 on the row and not above it on the row before
  (so the row is not the first); volume above the mean of the last twenty volumes (so at
  least twenty rows are there); MACD above its signal line.
\<close>

theorem signal_2_implies_standard_buy:
  assumes wf: "wf_frame df" and ne: "\<not> empty df"
    and rsi: "get_num df ''RSI_14'' = Inr rsi"
    and sma20: "get_num df ''SMA_20'' = Inr sma20"
    and sma50: "get_num df ''SMA_50'' = Inr sma50"
    and volume: "get_num df ''Volume'' = Inr volume"
    and macd: "get_num df ''MACD_12_26_9'' = Inr macd"
    and macds: "get_num df ''MACDs_12_26_9'' = Inr macds"
    and stochk: "get_num df ''STOCHk_14_3_3'' = Inr stochk"
    and dts: "get_num df ''Distance_to_Support'' = Inr dts"
    and run: "apply_enhanced_trading_strategy cfg df = (df', buy_signals)"
  shows "\<exists>signal. getitem df' ''Signal'' = Inr (IntCol signal) \<and> length signal = nrows df \<and>
           (\<forall>i < nrows df. signal ! i = 2 \<longrightarrow>
              fl_lt (rsi ! i) (Num (RSI_OVERSOLD cfg)) \<and>
              (fl_gt (sma20 ! i) (sma50 ! i) \<and> 0 < i \<and> fl_le (sma20 ! (i - 1)) (sma50 ! (i - 1))) \<and>
              (19 \<le> i \<and> fl_gt (volume ! i) (window_mean (take 20 (drop (i - 19) volume)))) \<and>
              fl_gt (macd ! i) (macds ! i))"
proof -
  define sb where "sb = strong_buy (rsi_oversold cfg rsi) (sma_crossover sma20 sma50)
                (volume_confirm volume) (macd_bullish macd macds)"
  define cb where "cb = confirmed_buy sb (stoch_oversold cfg stochk) (price_above_support cfg dts)"
  define signal where "signal = signal_column (nrows df) sb cb"
  note len = get_num_length[OF wf rsi] get_num_length[OF wf sma20] get_num_length[OF wf sma50]
    get_num_length[OF wf volume] get_num_length[OF wf macd] get_num_length[OF wf macds]
    get_num_length[OF wf stochk] get_num_length[OF wf dts]
  have body: "strategy_body cfg df =
           Inr (setitem ''Signal'' (IntCol signal) df,
                extract_buy_signals signal (setitem ''Signal'' (IntCol signal) df))"
    by (rule strategy_body_Inr[OF rsi sma20 sma50 volume macd macds stochk dts sb_def])
       (simp add: signal_def cb_def)
  from rsi have "''RSI_14'' \<in> set (columns df)" by (rule get_num_in_columns)
  with ne body run have df': "df' = setitem ''Signal'' (IntCol signal) df"
    by (simp add: apply_enhanced_trading_strategy_def)
  have lsb: "length sb = nrows df" by (simp add: sb_def len)
  have lcb: "length cb = nrows df" by (simp add: cb_def lsb len)
  have lsig: "length signal = nrows df" by (simp add: signal_def lsb lcb)
  have rows: "fl_lt (rsi ! i) (Num (RSI_OVERSOLD cfg)) \<and>
              (fl_gt (sma20 ! i) (sma50 ! i) \<and> 0 < i \<and> fl_le (sma20 ! (i - 1)) (sma50 ! (i - 1))) \<and>
              (19 \<le> i \<and> fl_gt (volume ! i) (window_mean (take 20 (drop (i - 19) volume)))) \<and>
              fl_gt (macd ! i) (macds ! i)"
    if i: "i < nrows df" and two: "signal ! i = 2" for i
  proof -
    from i two have "cb ! i" 
      by (simp add: signal_def nth_signal_column lsb lcb split: if_splits)
    with i have "sb ! i"
      by (simp add: cb_def nth_confirmed_buy lsb len)
    with i show ?thesis
      by (simp add: sb_def nth_strong_buy len nth_rsi_oversold nth_sma_crossover
          nth_volume_confirm nth_macd_bullish)
  qed
  show ?thesis
    by (rule exI[of _ signal]) (use df' lsig rows in simp)
qed

text \<open>
  The theorem at a concrete frame of 21 rows whose last row is a crossover with all six
  conditions true: that row gets signal 2, and the four conditions hold there.
\<close>

theorem signal_2_implies_standard_buy_witness:
  "\<exists>signal. getitem (fst (apply_enhanced_trading_strategy example_config crossover_frame))
               ''Signal'' = Inr (IntCol signal) \<and>
     signal ! 20 = 2 \<and>
     fl_lt (replicate 21 (Num 25) ! 20) (Num (RSI_OVERSOLD example_config)) \<and>
     fl_gt ((replicate 20 (Num 1) @ [Num 3]) ! 20) (replicate 21 (Num 2) ! 20) \<and>
     fl_le ((replicate 20 (Num 1) @ [Num 3]) ! 19) (replicate 21 (Num 2) ! 19) \<and>
     fl_gt (Num 200) (window_mean (take 20 (drop 1
        (map (\<lambda>i. Num (of_int i)) (replicate 20 100 @ [200]))))) \<and>
     fl_gt (replicate 21 (Num 1) ! 20) (replicate 21 (Num 0) ! 20)"
proof -
  have wf: "wf_frame crossover_frame" by code_simp
  have ne: "\<not> empty crossover_frame" by code_simp
  have c1: "get_num crossover_frame ''RSI_14'' = Inr (replicate 21 (Num 25))" by code_simp
  have c2: "get_num crossover_frame ''SMA_20'' = Inr (replicate 20 (Num 1) @ [Num 3])"
    by code_simp
  have c3: "get_num crossover_frame ''SMA_50'' = Inr (replicate 21 (Num 2))" by code_simp
  have c4: "get_num crossover_frame ''Volume'' =
              Inr (map (\<lambda>i. Num (of_int i)) (replicate 20 100 @ [200]))" by code_simp
  have c5: "get_num crossover_frame ''MACD_12_26_9'' = Inr (replicate 21 (Num 1))" by code_simp
  have c6: "get_num crossover_frame ''MACDs_12_26_9'' = Inr (replicate 21 (Num 0))" by code_simp
  have c7: "get_num crossover_frame ''STOCHk_14_3_3'' = Inr (replicate 21 (Num 10))"
    by code_simp
  have c8: "get_num crossover_frame ''Distance_to_Support'' = Inr (replicate 21 (Num (1/20)))"
    by code_simp
  have run: "apply_enhanced_trading_strategy example_config crossover_frame =
               (fst (apply_enhanced_trading_strategy example_config crossover_frame),
                snd (apply_enhanced_trading_strategy example_config crossover_frame))"
    by simp
  have n: "nrows crossover_frame = 21" by code_simp
  have ev: "getitem (fst (apply_enhanced_trading_strategy example_config crossover_frame))
              ''Signal'' = Inr (IntCol (replicate 20 0 @ [2]))"
    by code_simp
  from signal_2_implies_standard_buy[OF wf ne c1 c2 c3 c4 c5 c6 c7 c8 run]
  obtain signal where
    s: "getitem (fst (apply_enhanced_trading_strategy example_config crossover_frame))
          ''Signal'' = Inr (IntCol signal)"
    and r: "\<forall>i < nrows crossover_frame. signal ! i = 2 \<longrightarrow>
              fl_lt (replicate 21 (Num 25) ! i) (Num (RSI_OVERSOLD example_config)) \<and>
              (fl_gt ((replicate 20 (Num 1) @ [Num 3]) ! i) (replicate 21 (Num 2) ! i) \<and> 0 < i \<and>
               fl_le ((replicate 20 (Num 1) @ [Num 3]) ! (i - 1)) (replicate 21 (Num 2) ! (i - 1))) \<and>
              (19 \<le> i \<and> fl_gt (map (\<lambda>i. Num (of_int i)) (replicate 20 100 @ [200]) ! i)
                 (window_mean (take 20 (drop (i - 19)
                    (map (\<lambda>i. Num (of_int i)) (replicate 20 100 @ [200])))))) \<and>
              fl_gt (replicate 21 (Num 1) ! i) (replicate 21 (Num 0) ! i)"
    by blast
  from s ev have sig: "signal = replicate 20 0 @ [2]" by simp
  have two: "signal ! 20 = 2" unfolding sig by (simp add: nth_append)
  have v: "map (\<lambda>i. Num (of_int i)) (replicate 20 100 @ [200::int]) ! 20 = Num 200"
    by (simp add: nth_append)
  from r[rule_format, of 20] n two v s show ?thesis
    by (intro exI[of _ signal]) simp
qed

subsection \<open>C10: frame effect of the Strategy Evaluator\<close>

text \<open>
  C10, as stated, promises the \<^verbatim>\<open>Signal\<close> column for every non-empty frame with the RSI
  column. The guard of the evaluator tests the RSI column only; the rules then read seven
  more columns inside the \<^verbatim>\<open>try\<close> block, before the first assignment. On a frame that
  lacks one of them the lookup raises, the handler returns the empty frame, and the
  caller's frame is left without a \<^verbatim>\<open>Signal\<close> column.
\<close>

theorem strategy_frame_effect_counterexample:
  "\<not> empty rsi_only_frame \<and> ''RSI_14'' \<in> set (columns rsi_only_frame) \<and>
   fst (apply_enhanced_trading_strategy example_config rsi_only_frame) = rsi_only_frame \<and>
   ''Signal'' \<notin> set (columns (fst (apply_enhanced_trading_strategy example_config rsi_only_frame)))"
  by code_simp

text \<open>
  C10, amended. For a well-formed, non-empty Series (numeric columns, with or without
  the \<^verbatim>\<open>Date\<close> and \<^verbatim>\<open>Signal_Type\<close> columns) that has the RSI column: if all eight
  columns read by the rules are present, the call replaces the caller's frame by the same
  frame with an integer \<^verbatim>\<open>Signal\<close> column of one value in {0, 1, 2} per row; the row
  labels and every column other than \<^verbatim>\<open>Signal\<close> are unchanged, the only column name
  added to the caller's frame is \<^verbatim>\<open>Signal\<close>, and the returned frame carries the
  \<^verbatim>\<open>Signal_Type\<close> column. Otherwise, that is when one of the eight columns is missing,
  the caller's frame is unchanged and the empty frame is returned.
\<close>

theorem strategy_frame_effect:
  assumes wf: "wf_frame df" and ne: "\<not> empty df" and rsi: "''RSI_14'' \<in> set (columns df)"
    and run: "apply_enhanced_trading_strategy cfg df = (df', buy_signals)"
  shows "if strategy_inputs_ok df
         then (\<exists>signal. df' = setitem ''Signal'' (IntCol signal) df \<and>
                 length signal = nrows df \<and> set signal \<subseteq> {0, 1, 2} \<and>
                 getitem df' ''Signal'' = Inr (IntCol signal)) \<and>
              index df' = index df \<and> wf_frame df' \<and>
              (\<forall>name. name \<noteq> ''Signal'' \<longrightarrow> map_of (cols df') name = map_of (cols df) name) \<and>
              Date df' = Date df \<and> Signal_Type df' = Signal_Type df \<and>
              set (columns df') = insert ''Signal'' (set (columns df)) \<and>
              ''Signal_Type'' \<in> set (columns buy_signals)
         else df' = df \<and> buy_signals = DataFrame"
proof (cases "strategy_inputs_ok df")
  case False
  then obtain e where "strategy_body cfg df = Inl e" using strategy_body_Inl by blast
  with run False show ?thesis
    by (auto simp: apply_enhanced_trading_strategy_def split: if_splits)
next
  case True
  then obtain rsi sma20 sma50 volume macd macds stochk dts where g:
    "get_num df ''RSI_14'' = Inr rsi" "get_num df ''SMA_20'' = Inr sma20"
    "get_num df ''SMA_50'' = Inr sma50" "get_num df ''Volume'' = Inr volume"
    "get_num df ''MACD_12_26_9'' = Inr macd" "get_num df ''MACDs_12_26_9'' = Inr macds"
    "get_num df ''STOCHk_14_3_3'' = Inr stochk" "get_num df ''Distance_to_Support'' = Inr dts"
    unfolding strategy_inputs_ok_def succeeds_def by (auto split: sum.splits)
  define sb where "sb = strong_buy (rsi_oversold cfg rsi) (sma_crossover sma20 sma50)
                (volume_confirm volume) (macd_bullish macd macds)"
  define cb where "cb = confirmed_buy sb (stoch_oversold cfg stochk) (price_above_support cfg dts)"
  define signal where "signal = signal_column (nrows df) sb cb"
  note len = g[THEN get_num_length[OF wf]]
  have body: "strategy_body cfg df =
           Inr (setitem ''Signal'' (IntCol signal) df,
                extract_buy_signals signal (setitem ''Signal'' (IntCol signal) df))"
    by (rule strategy_body_Inr[OF g sb_def]) (simp add: signal_def cb_def)
  with ne rsi run have df': "df' = setitem ''Signal'' (IntCol signal) df"
    and bs: "buy_signals = extract_buy_signals signal df'"
    by (auto simp: apply_enhanced_trading_strategy_def)
  have lsig: "length signal = nrows df" by (simp add: signal_def sb_def cb_def len)
  have rng: "set signal \<subseteq> {0, 1, 2}" unfolding signal_def by (rule set_signal_column)
  have st: "''Signal_Type'' \<in> set (columns buy_signals)"
    unfolding bs extract_buy_signals_def Let_def by (simp add: set_columns set_signal_type_def)
  have wf': "wf_frame df'" unfolding df' by (rule wf_setitem[OF wf]) (simp add: lsig)
  from True df' lsig rng st wf' show ?thesis
    by (auto simp: map_of_setitem_other columns_setitem fields_setitem_other)
qed

theorem strategy_frame_effect_witness:
  "strategy_inputs_ok crossover_frame \<and>
   (\<exists>signal. fst (apply_enhanced_trading_strategy example_config crossover_frame) =
        setitem ''Signal'' (IntCol signal) crossover_frame \<and>
      length signal = 21 \<and> set signal \<subseteq> {0, 1, 2}) \<and>
   index (fst (apply_enhanced_trading_strategy example_config crossover_frame)) =
     index crossover_frame \<and>
   ''Signal_Type'' \<in> set (columns (snd (apply_enhanced_trading_strategy example_config
      crossover_frame))) \<and>
   ''Signal_Type'' \<notin> set (columns (fst (apply_enhanced_trading_strategy example_config
      crossover_frame)))"
proof -
  have wf: "wf_frame crossover_frame" by code_simp
  have ne: "\<not> empty crossover_frame" by code_simp
  have rsi: "''RSI_14'' \<in> set (columns crossover_frame)" by code_simp
  have ok: "strategy_inputs_ok crossover_frame" by code_simp
  have n: "nrows crossover_frame = 21" by code_simp
  have st: "''Signal_Type'' \<notin> insert ''Signal'' (set (columns crossover_frame))" by code_simp
  have run: "apply_enhanced_trading_strategy example_config crossover_frame =
               (fst (apply_enhanced_trading_strategy example_config crossover_frame),
                snd (apply_enhanced_trading_strategy example_config crossover_frame))"
    by simp
  from strategy_frame_effect[OF wf ne rsi run] ok n st show ?thesis
    by auto
qed

section \<open>Properties of row selection and of dropna\<close>

lemma select_Nil [simp]: "select [] xs = []" "select keep [] = []"
  by (simp_all add: select_def)

lemma select_Cons [simp]:
  "select (k # keep) (x # xs) = (if k then x # select keep xs else select keep xs)"
  by (simp add: select_def)

lemma select_map: "select keep (map f xs) = map f (select keep xs)"
proof (induction keep arbitrary: xs)
  case Nil then show ?case by simp
next
  case (Cons k keep) then show ?case by (cases xs) auto
qed

lemma length_select:
  "length keep = length xs \<Longrightarrow> length (select keep xs) = length (filter id keep)"
  by (induction keep xs rule: list_induct2) auto

lemma select_append:
  "length keep = length xs \<Longrightarrow>
   select (keep @ keep') (xs @ xs') = select keep xs @ select keep' xs'"
  by (induction keep xs rule: list_induct2) auto

lemma select_subseq: "subseq (select keep xs) xs"
proof (induction keep arbitrary: xs)
  case Nil then show ?case by simp
next
  case (Cons k keep) then show ?case by (cases xs) auto
qed

lemma select_self_all_true: "\<forall>b \<in> set (select keep keep). b"
  by (induction keep) auto

lemma select_implied:
  "length keep = length bs \<Longrightarrow> \<forall>i < length bs. keep ! i \<longrightarrow> bs ! i \<Longrightarrow>
   \<forall>b \<in> set (select keep bs). b"
proof (induction keep bs rule: list_induct2)
  case Nil then show ?case by simp
next
  case (Cons k keep b bs)
  from Cons.prems have "\<forall>i < length bs. keep ! i \<longrightarrow> bs ! i" by auto
  with Cons.IH have "\<forall>b \<in> set (select keep bs). b" by simp
  moreover from Cons.prems have "k \<longrightarrow> b" by auto
  ultimately show ?case by auto
qed

lemma last_select:
  assumes "length keep = length xs" "xs \<noteq> []" "last keep"
  shows "last (select keep xs) = last xs"
proof -
  from assms have "keep \<noteq> []" by auto
  then have k: "keep = butlast keep @ [True]" using assms(3)
    by (metis append_butlast_last_id)
  from assms(2) have x: "xs = butlast xs @ [last xs]" by simp
  have "select (butlast keep @ [True]) (butlast xs @ [last xs])
        = select (butlast keep) (butlast xs) @ select [True] [last xs]"
    by (rule select_append) (simp add: assms(1))
  then have "select keep xs = select (butlast keep) (butlast xs) @ [last xs]"
    using k x by simp
  then show ?thesis by simp
qed

lemma length_col_notna [simp]: "length (col_notna c) = col_len c"
  by (cases c) simp_all

lemma col_notna_select_col: "col_notna (select_col keep c) = select keep (col_notna c)"
  by (cases c) (simp_all add: select_map)

lemma col_len_select_col:
  "length keep = col_len c \<Longrightarrow> col_len (select_col keep c) = length (filter id keep)"
  by (cases c) (simp_all add: length_select)

lemma length_notna_rows:
  "list_all (\<lambda>(name, c). col_len c = n) cs \<Longrightarrow> length (notna_rows n cs) = n"
  by (induction cs) (auto simp: series_and_def)

lemma nth_notna_rows:
  "list_all (\<lambda>(name, c). col_len c = n) cs \<Longrightarrow> i < n \<Longrightarrow>
   notna_rows n cs ! i = (\<forall>(name, c) \<in> set cs. col_notna c ! i)"
proof (induction cs)
  case Nil then show ?case by simp
next
  case (Cons a cs)
  obtain name c where a: "a = (name, c)" by (cases a)
  from Cons.prems a have len: "col_len c = n" "list_all (\<lambda>(name, c). col_len c = n) cs" by auto
  with Cons.prems have "length (notna_rows n cs) = n" by (simp add: length_notna_rows)
  with Cons len a \<open>i < n\<close> show ?case by (simp add: series_and_def)
qed

lemma length_opt_notna:
  "(case col of None \<Rightarrow> True | Some xs \<Rightarrow> length xs = n) \<Longrightarrow> length (opt_notna n col) = n"
  by (cases col) (simp_all add: opt_notna_def)

lemma nth_opt_notna:
  "(case col of None \<Rightarrow> True | Some xs \<Rightarrow> length xs = n) \<Longrightarrow> i < n \<Longrightarrow>
   opt_notna n col ! i = (\<forall>xs. col = Some xs \<longrightarrow> xs ! i \<noteq> None)"
  by (cases col) (simp_all add: opt_notna_def)

lemma length_notna_mask: "wf_frame df \<Longrightarrow> length (notna_mask df) = nrows df"
  by (simp add: notna_mask_def wf_frame_def length_notna_rows length_opt_notna)

text \<open>A row is kept by dropna when it holds a value in every column.\<close>

lemma nth_notna_mask:
  assumes "wf_frame df" and "i < nrows df"
  shows "notna_mask df ! i =
           ((\<forall>(name, c) \<in> set (cols df). col_notna c ! i) \<and>
            (\<forall>ds. Date df = Some ds \<longrightarrow> ds ! i \<noteq> None) \<and>
            (\<forall>ls. Signal_Type df = Some ls \<longrightarrow> ls ! i \<noteq> None))"
proof -
  from assms(1) have c: "list_all (\<lambda>(name, c). col_len c = nrows df) (cols df)"
    and d: "case Date df of None \<Rightarrow> True | Some xs \<Rightarrow> length xs = nrows df"
    and l: "case Signal_Type df of None \<Rightarrow> True | Some xs \<Rightarrow> length xs = nrows df"
    by (simp_all add: wf_frame_def)
  show ?thesis
    using assms(2)
    by (simp add: notna_mask_def nth_series_and length_notna_rows[OF c] length_opt_notna[OF d]
        length_opt_notna[OF l] nth_notna_rows[OF c] nth_opt_notna[OF d] nth_opt_notna[OF l])
qed

lemma index_dropna: "index (dropna df) = select (notna_mask df) (index df)"
  by (simp add: dropna_def select_rows_def)

lemma cols_dropna:
  "cols (dropna df) = map (\<lambda>(n, c). (n, select_col (notna_mask df) c)) (cols df)"
  by (simp add: dropna_def select_rows_def)

lemma Date_dropna: "Date (dropna df) = map_option (select (notna_mask df)) (Date df)"
  by (simp add: dropna_def select_rows_def)

lemma Signal_Type_dropna:
  "Signal_Type (dropna df) = map_option (select (notna_mask df)) (Signal_Type df)"
  by (simp add: dropna_def select_rows_def)

lemma columns_dropna [simp]: "columns (dropna df) = columns df"
  by (simp add: dropna_def)

lemma nrows_dropna_filter:
  "wf_frame df \<Longrightarrow> nrows (dropna df) = length (filter id (notna_mask df))"
  using length_notna_mask[of df] by (simp add: nrows_def index_dropna length_select)

lemma wf_dropna: "wf_frame df \<Longrightarrow> wf_frame (dropna df)"
proof -
  assume wf: "wf_frame df"
  let ?keep = "notna_mask df"
  from wf have lk: "length ?keep = nrows df" by (rule length_notna_mask)
  have n: "nrows (dropna df) = length (filter id ?keep)" by (rule nrows_dropna_filter[OF wf])
  have "col_len (select_col ?keep c) = length (filter id ?keep)"
    if "(name, c) \<in> set (cols df)" for name c
    using that wf lk by (intro col_len_select_col) (auto simp: wf_frame_def list_all_iff)
  then have 1: "list_all (\<lambda>(name, c). col_len c = nrows (dropna df)) (cols (dropna df))"
    by (auto simp: n list_all_iff cols_dropna)
  have 2: "case Date (dropna df) of None \<Rightarrow> True | Some ds \<Rightarrow> length ds = nrows (dropna df)"
    using wf lk by (auto simp: n Date_dropna wf_frame_def length_select
        split: option.splits)
  have 3: "case Signal_Type (dropna df) of None \<Rightarrow> True
           | Some ls \<Rightarrow> length ls = nrows (dropna df)"
    using wf lk by (auto simp: n Signal_Type_dropna wf_frame_def length_select
        split: option.splits)
  from 1 2 3 show ?thesis by (simp add: wf_frame_def)
qed

text \<open>After dropna no cell of any column is missing.\<close>

lemma dropna_no_missing:
  assumes wf: "wf_frame df" and c: "(name, c) \<in> set (cols (dropna df))"
  shows "\<forall>b \<in> set (col_notna c). b"
proof -
  let ?keep = "notna_mask df"
  from c obtain c0 where c0: "(name, c0) \<in> set (cols df)" and cc: "c = select_col ?keep c0"
    by (auto simp: cols_dropna)
  from wf have lk: "length ?keep = nrows df" by (rule length_notna_mask)
  from wf c0 have l0: "col_len c0 = nrows df" by (auto simp: wf_frame_def list_all_iff)
  have "\<forall>i < length (col_notna c0). ?keep ! i \<longrightarrow> col_notna c0 ! i"
    using c0 l0 by (auto simp: nth_notna_mask[OF wf])
  with lk l0 have "\<forall>b \<in> set (select ?keep (col_notna c0)). b"
    by (intro select_implied) simp_all
  then show ?thesis by (simp add: cc col_notna_select_col)
qed

lemma select_no_None:
  assumes "length keep = length xs" and "\<forall>i < length xs. keep ! i \<longrightarrow> xs ! i \<noteq> None"
  shows "None \<notin> set (select keep xs)"
proof -
  have "\<forall>b \<in> set (select keep (map (\<lambda>x. x \<noteq> None) xs)). b"
    using assms by (intro select_implied) simp_all
  then show ?thesis by (auto simp: select_map)
qed

lemma dropna_no_missing_date:
  assumes wf: "wf_frame df" and d: "Date (dropna df) = Some ds"
  shows "None \<notin> set ds"
proof -
  from d obtain ds0 where d0: "Date df = Some ds0" and ds: "ds = select (notna_mask df) ds0"
    by (auto simp: Date_dropna)
  from wf d0 have l0: "length ds0 = nrows df" by (simp add: wf_frame_def)
  show ?thesis unfolding ds
    using l0 d0 by (intro select_no_None) (auto simp: length_notna_mask[OF wf] nth_notna_mask[OF wf])
qed

lemma dropna_no_missing_label:
  assumes wf: "wf_frame df" and d: "Signal_Type (dropna df) = Some ls"
  shows "None \<notin> set ls"
proof -
  from d obtain ls0 where d0: "Signal_Type df = Some ls0" and ls: "ls = select (notna_mask df) ls0"
    by (auto simp: Signal_Type_dropna)
  from wf d0 have l0: "length ls0 = nrows df" by (simp add: wf_frame_def)
  show ?thesis unfolding ls
    using l0 d0 by (intro select_no_None) (auto simp: length_notna_mask[OF wf] nth_notna_mask[OF wf])
qed

lemma nrows_dropna:
  "wf_frame df \<Longrightarrow>
   nrows (dropna df) = nrows df - length (filter (\<lambda>b. \<not> b) (notna_mask df))"
proof -
  assume wf: "wf_frame df"
  let ?keep = "notna_mask df"
  from wf have lk: "length ?keep = nrows df" by (rule length_notna_mask)
  have "length (filter id ?keep) + length (filter (\<lambda>b. \<not> b) ?keep) = length ?keep"
    using sum_length_filter_compl[of id ?keep] by simp
  with nrows_dropna_filter[OF wf] lk show ?thesis by simp
qed

lemma select_conv_nth:
  "length keep = length xs \<Longrightarrow>
   select keep xs = map ((!) xs) (filter ((!) keep) [0..<length xs])"
proof (induction xs arbitrary: keep rule: rev_induct)
  case Nil then show ?case by simp
next
  case (snoc x xs)
  from snoc.prems obtain k ks where keep: "keep = ks @ [k]" and len: "length ks = length xs"
    by (auto simp: length_Suc_conv_rev)
  have f: "filter ((!) (ks @ [k])) [0..<length xs] = filter ((!) ks) [0..<length xs]"
    using len by (intro filter_cong) (auto simp: nth_append)
  have m: "map ((!) (xs @ [x])) (filter ((!) ks) [0..<length xs])
           = map ((!) xs) (filter ((!) ks) [0..<length xs])"
    by (intro map_cong) (auto simp: nth_append)
  have "select (ks @ [k]) (xs @ [x]) = select ks xs @ select [k] [x]"
    by (rule select_append) (rule len)
  moreover have "(ks @ [k]) ! length xs = k" using len by (simp add: nth_append)
  ultimately show ?case using snoc.IH[OF len] by (simp add: keep f m)
qed

section \<open>The label column and the training rows\<close>

lemma length_shift_back [simp]: "length (shift_back xs) = length xs"
  by (cases xs) (simp_all add: shift_back_def)

lemma nth_shift_back:
  "i < length xs \<Longrightarrow> shift_back xs ! i = (if i + 1 < length xs then xs ! (i + 1) else NaN)"
  by (cases xs) (auto simp: shift_back_def nth_append nth_tl)

lemma length_target_column [simp]: "length (target_column close) = length close"
  by (simp add: target_column_def)

text \<open>The label of a row: 1 when there is a next row with a higher close, else 0.\<close>

lemma nth_target_column:
  "i < length close \<Longrightarrow>
   target_column close ! i =
     (if i + 1 < length close \<and> fl_gt (close ! (i + 1)) (close ! i) then 1 else 0)"
  by (simp add: target_column_def nth_shift_back)

lemma last_target_column: "close \<noteq> [] \<Longrightarrow> last (target_column close) = 0"
proof -
  assume ne: "close \<noteq> []"
  then have "length (target_column close) \<noteq> 0" by simp
  then have "target_column close \<noteq> []" by (simp only: length_0_conv not_False_eq_True)
  then have "last (target_column close) = target_column close ! (length close - 1)"
    by (simp add: last_conv_nth)
  also have "\<dots> = 0" using ne by (subst nth_target_column) auto
  finally show ?thesis .
qed

lemma Target_not_feature: "''Target'' \<notin> set ml_features"
  by (simp add: ml_features_def)

lemma Date_not_feature: "''Date'' \<notin> set ml_features"
  by (simp add: ml_features_def)

lemma Signal_Type_not_feature: "''Signal_Type'' \<notin> set ml_features"
  by (simp add: ml_features_def)

lemma map_of_key_Some: "k \<in> fst ` set cs \<Longrightarrow> \<exists>v. map_of cs k = Some v"
  by (cases "map_of cs k") (auto simp: map_of_eq_None_iff)

lemma the_map_of_member:
  assumes "k \<in> fst ` set cs"
  shows "(k, the (map_of cs k)) \<in> set cs"
proof -
  from map_of_key_Some[OF assms] obtain v where v: "map_of cs k = Some v" ..
  then have "(k, v) \<in> set cs" by (rule map_of_SomeD)
  with v show ?thesis by simp
qed

lemma getitems_cols_Inr:
  "set names \<subseteq> fst ` set cs \<Longrightarrow>
   getitems_cols cs names = Inr (map (\<lambda>n. (n, the (map_of cs n))) names)"
proof (induction names)
  case Nil then show ?case by simp
next
  case (Cons n names)
  from Cons.prems have 1: "n \<in> fst ` set cs" and 2: "set names \<subseteq> fst ` set cs" by simp_all
  from map_of_key_Some[OF 1] obtain c where c: "map_of cs n = Some c" ..
  show ?case using Cons.IH[OF 2] c by simp
qed

lemma set_available_features:
  "set (available_features df) = set ml_features \<inter> set (columns df)"
  by (auto simp: available_features_def)

lemma map_of_select_rows:
  "map_of (cols (select_rows keep df)) name = map_option (select_col keep) (map_of (cols df) name)"
  by (simp add: select_rows_def map_of_map)

lemma map_of_named:
  "map_of (map (\<lambda>n. (n, g n)) names) k = (if k \<in> set names then Some (g k) else None)"
  by (induction names) auto

lemma fst_train_ensemble_models:
  "\<not> empty df \<Longrightarrow> get_num df ''Close'' = Inr close \<Longrightarrow>
   fst (train_ensemble_models sk df) = setitem ''Target'' (IntCol (target_column close)) df"
  by (simp add: train_ensemble_models_def Let_def)

lemma ml_frame_rows:
  assumes wf: "wf_frame df" and close: "get_num df ''Close'' = Inr close"
    and df': "df' = setitem ''Target'' (IntCol (target_column close)) df"
    and feats: "feats = available_features df'"
  shows "\<exists>ml_df keep. ml_frame df' feats = Inr ml_df \<and>
           length keep = nrows df \<and>
           (\<forall>i < nrows df. keep ! i = row_complete df feats i) \<and>
           index ml_df = select keep (index df) \<and>
           getitem ml_df ''Target'' = Inr (IntCol (select keep (target_column close)))"
proof -
  define tc where "tc = target_column close"
  define names where "names = feats @ [''Target'']"
  define g where "g = (\<lambda>n. the (map_of (cols df') n))"
  define sub where
    "sub = \<lparr>index = index df, cols = map (\<lambda>n. (n, g n)) names, Date = None, Signal_Type = None\<rparr>"
  define keep where "keep = notna_mask sub"
  have n: "length close = nrows df" by (rule get_num_length[OF wf close])
  have wf': "wf_frame df'" unfolding df' by (rule wf_setitem[OF wf]) (simp add: n)
  have idx: "index df' = index df" by (simp add: df')
  have tgt: "map_of (cols df') ''Target'' = Some (IntCol tc)"
    by (simp add: df' setitem_def update_conv' tc_def)
  have feat_col: "name \<in> fst ` set (cols df')" if "name \<in> set feats" for name
  proof -
    from that have "name \<in> set ml_features" "name \<in> set (columns df')"
      by (simp_all add: feats set_available_features)
    moreover from this(1) have "name \<noteq> ''Date''" "name \<noteq> ''Signal_Type''"
      using Date_not_feature Signal_Type_not_feature by auto
    ultimately show ?thesis by (auto simp: set_columns split: if_splits)
  qed
  from tgt have "(''Target'', IntCol tc) \<in> set (cols df')" by (rule map_of_SomeD)
  then have "''Target'' \<in> fst ` set (cols df')" by force
  with feat_col have sub_names: "set names \<subseteq> fst ` set (cols df')"
    by (auto simp: names_def)
  have gi: "getitems df' names = Inr sub"
    by (simp add: getitems_def getitems_cols_Inr[OF sub_names] idx sub_def g_def)
  have ml: "ml_frame df' feats = Inr (dropna sub)"
    using gi by (simp add: ml_frame_def then_do_def names_def)
  have member: "(name, g name) \<in> set (cols df')" if "name \<in> set names" for name
  proof -
    from that sub_names have "name \<in> fst ` set (cols df')" by (rule subsetD[rotated])
    then show ?thesis unfolding g_def by (rule the_map_of_member)
  qed
  have nsub: "nrows sub = nrows df" by (simp add: nrows_def sub_def)
  have wf_sub: "wf_frame sub"
  proof -
    have "col_len c = nrows df" if "(name, c) \<in> set (cols sub)" for name c
    proof -
      from that have "name \<in> set names" "c = g name" by (auto simp: sub_def)
      with member[of name] wf' show ?thesis
        by (auto simp: wf_frame_def list_all_iff nrows_def idx)
    qed
    then have "list_all (\<lambda>(name, c). col_len c = nrows sub) (cols sub)"
      by (auto simp: list_all_iff nsub)
    then show ?thesis by (simp add: wf_frame_def sub_def)
  qed
  have lk: "length keep = nrows df" using length_notna_mask[OF wf_sub] by (simp add: keep_def nsub)
  have other: "map_of (cols df') name = map_of (cols df) name" if "name \<in> set feats" for name
  proof -
    from that have "name \<noteq> ''Target''"
      using Target_not_feature by (auto simp: feats set_available_features)
    then show ?thesis by (simp add: df' map_of_setitem_other)
  qed
  have some: "\<exists>c. map_of (cols df') name = Some c" if "name \<in> set feats" for name
    using feat_col[OF that] by (rule map_of_key_Some)
  have gt: "g ''Target'' = IntCol tc" using tgt by (simp add: g_def)
  have rows: "keep ! i = row_complete df feats i" if i: "i < nrows df" for i
  proof -
    from i have "i < nrows sub" by (simp add: nsub)
    from nth_notna_mask[OF wf_sub this]
    have "keep ! i = (\<forall>(name, c) \<in> set (cols sub). col_notna c ! i)"
      by (simp add: keep_def sub_def)
    also have "\<dots> = ((\<forall>name \<in> set feats. col_notna (g name) ! i) \<and> col_notna (IntCol tc) ! i)"
      by (auto simp: sub_def names_def gt)
    also have "col_notna (IntCol tc) ! i = True" using i n by (simp add: tc_def)
    also have "((\<forall>name \<in> set feats. col_notna (g name) ! i) \<and> True) = row_complete df feats i"
      using some other by (auto simp: row_complete_def list_all_iff g_def split: option.splits)
    finally show ?thesis .
  qed
  have ix: "index (dropna sub) = select keep (index df)"
    by (simp add: index_dropna keep_def sub_def)
  have "map_of (map (\<lambda>n. (n, g n)) names) ''Target'' = Some (g ''Target'')"
    by (subst map_of_named) (simp add: names_def)
  then have mt: "map_of (cols sub) ''Target'' = Some (IntCol tc)"
    by (simp add: sub_def gt)
  have "map_of (cols (dropna sub)) ''Target'' = map_option (select_col keep) (map_of (cols sub) ''Target'')"
    unfolding cols_dropna keep_def by (simp add: map_of_map)
  then have tcol: "getitem (dropna sub) ''Target'' = Inr (IntCol (select keep (target_column close)))"
    by (simp add: getitem_def mt tc_def)
  have r: "\<forall>i < nrows df. keep ! i = row_complete df feats i" using rows by simp
  show ?thesis
    by (rule exI[of _ "dropna sub"], rule exI[of _ keep]) (intro conjI ml lk r ix tcol)
qed

section \<open>Properties of the Model Trainer\<close>

lemma then_do_Inr_iff:
  "then_do m f = Inr y \<longleftrightarrow> (\<exists>x. m = Inr x \<and> f x = Inr y)"
  by (cases m) (simp_all add: then_do_def)

lemma accuracy_score_bounds:
  assumes "accuracy_score y_true y_pred = Inr a"
  shows "0 \<le> a \<and> a \<le> 1"
proof -
  from assms have len: "length y_true = length y_pred"
    and a: "a = real (length (filter (\<lambda>(t, p). t = p) (zip y_true y_pred))) / real (length y_true)"
    by (auto simp: accuracy_score_def split: if_splits)
  have "length (filter (\<lambda>(t, p). t = p) (zip y_true y_pred)) \<le> length (zip y_true y_pred)"
    by (rule length_filter_le)
  with len have "real (length (filter (\<lambda>(t, p). t = p) (zip y_true y_pred))) \<le> real (length y_true)"
    by simp
  then show ?thesis unfolding a by (simp add: divide_le_eq_1)
qed

lemma filter_zip_le:
  "(\<And>x y. P (x, y) \<Longrightarrow> Q y) \<Longrightarrow> length (filter P (zip xs ys)) \<le> length (filter Q ys)"
proof (induction xs arbitrary: ys)
  case Nil then show ?case by simp
next
  case (Cons x xs)
  show ?case
  proof (cases ys)
    case Nil then show ?thesis by simp
  next
    case (Cons y ys')
    have "length (filter P (zip xs ys')) \<le> length (filter Q ys')"
      by (rule Cons.IH) (rule Cons.prems)
    with Cons Cons.prems[of x y] show ?thesis by auto
  qed
qed

lemma filter_zip_le_fst:
  "(\<And>x y. P (x, y) \<Longrightarrow> Q x) \<Longrightarrow> length (filter P (zip xs ys)) \<le> length (filter Q xs)"
proof (induction xs arbitrary: ys)
  case Nil then show ?case by simp
next
  case (Cons x xs)
  show ?case
  proof (cases ys)
    case Nil then show ?thesis by simp
  next
    case (Cons y ys')
    have "length (filter P (zip xs ys')) \<le> length (filter Q xs)"
      by (rule Cons.IH) (rule Cons.prems)
    with Cons Cons.prems[of x y] show ?thesis by auto
  qed
qed

lemma tp_le_support_pred: "true_positives y_true y_pred c \<le> support y_pred c"
  unfolding true_positives_def support_def by (rule filter_zip_le) auto

lemma tp_le_support_true: "true_positives y_true y_pred c \<le> support y_true c"
  unfolding true_positives_def support_def by (rule filter_zip_le_fst) auto

lemma class_precision_bounds:
  "0 \<le> class_precision y_true y_pred c \<and> class_precision y_true y_pred c \<le> 1"
  using tp_le_support_pred[of y_true y_pred c]
  by (simp add: class_precision_def divide_le_eq_1)

lemma class_recall_bounds:
  "0 \<le> class_recall y_true y_pred c \<and> class_recall y_true y_pred c \<le> 1"
  using tp_le_support_true[of y_true y_pred c]
  by (simp add: class_recall_def divide_le_eq_1)

lemma class_f1_bounds:
  "0 \<le> class_f1 y_true y_pred c \<and> class_f1 y_true y_pred c \<le> 1"
  using tp_le_support_true[of y_true y_pred c] tp_le_support_pred[of y_true y_pred c]
  by (auto simp: class_f1_def divide_le_eq_1)

lemma weighted_sum_le:
  "(\<And>c. 0 \<le> metric c \<and> metric c \<le> 1) \<Longrightarrow>
   0 \<le> sum_list (map (\<lambda>c. real (w c) * metric c) cs) \<and>
   sum_list (map (\<lambda>c. real (w c) * metric c) cs) \<le> sum_list (map (\<lambda>c. real (w c)) cs)"
proof (induction cs)
  case Nil then show ?case by simp
next
  case (Cons c cs)
  have "real (w c) * metric c \<le> real (w c) * 1"
    by (rule mult_left_mono) (use Cons.prems[of c] in simp_all)
  moreover have "0 \<le> real (w c) * metric c" using Cons.prems[of c] by simp
  ultimately show ?case using Cons.IH[OF Cons.prems] by simp
qed

lemma weighted_avg_bounds:
  assumes "\<And>c. 0 \<le> metric c \<and> metric c \<le> 1"
  shows "0 \<le> weighted_avg metric y_true y_pred \<and> weighted_avg metric y_true y_pred \<le> 1"
proof -
  let ?ls = "remdups (y_true @ y_pred)"
  let ?a = "sum_list (map (\<lambda>c. real (support y_true c) * metric c) ?ls)"
  let ?b = "sum_list (map (\<lambda>c. real (support y_true c)) ?ls)"
  from weighted_sum_le[of metric "support y_true" ?ls, OF assms]
  have ab: "0 \<le> ?a" "?a \<le> ?b" by simp_all
  then have "0 \<le> ?a / ?b" by simp
  moreover have "?a / ?b \<le> 1"
  proof (cases "?b = 0")
    case True then show ?thesis by simp
  next
    case False
    with ab have "0 < ?b" by linarith
    with ab show ?thesis by (simp add: divide_le_eq_1)
  qed
  ultimately show ?thesis by (simp add: weighted_avg_def Let_def)
qed

lemma round_half_even_bounds: "\<lfloor>x\<rfloor> \<le> round_half_even x \<and> round_half_even x \<le> \<lceil>x\<rceil>"
proof -
  have "x - of_int \<lfloor>x\<rfloor> \<noteq> 0 \<Longrightarrow> \<lceil>x\<rceil> = \<lfloor>x\<rfloor> + 1"
    by (metis ceiling_altdef eq_iff_diff_eq_0)
  moreover have "\<lfloor>x\<rfloor> \<le> \<lceil>x\<rceil>" by (rule floor_le_ceiling)
  ultimately show ?thesis
    by (auto simp: round_half_even_def Let_def)
qed

lemma round_half_even_mono:
  assumes "x \<le> y"
  shows "round_half_even x \<le> round_half_even y"
proof (cases "\<lfloor>x\<rfloor> = \<lfloor>y\<rfloor>")
  case True
  with assms have "x - of_int \<lfloor>x\<rfloor> \<le> y - of_int \<lfloor>y\<rfloor>" by simp
  with True show ?thesis by (auto simp: round_half_even_def Let_def)
next
  case False
  from assms have "\<lfloor>x\<rfloor> \<le> \<lfloor>y\<rfloor>" by (rule floor_mono)
  with False have "\<lfloor>x\<rfloor> + 1 \<le> \<lfloor>y\<rfloor>" by simp
  moreover have "\<lceil>x\<rceil> \<le> \<lfloor>x\<rfloor> + 1" by (simp add: ceiling_altdef)
  ultimately show ?thesis
    using round_half_even_bounds[of x] round_half_even_bounds[of y] by linarith
qed

lemma round2_mono: "x \<le> y \<Longrightarrow> round2 x \<le> round2 y"
  by (simp add: round2_def divide_right_mono round_half_even_mono)

lemma round2_percent_bounds:
  assumes "0 \<le> a" "a \<le> 1"
  shows "0 \<le> round2 (a * 100) \<and> round2 (a * 100) \<le> 100"
proof -
  let ?x = "a * 100 * 100"
  from assms have x: "0 \<le> ?x" "?x \<le> 10000" by simp_all
  then have "0 \<le> \<lfloor>?x\<rfloor>" "\<lceil>?x\<rceil> \<le> 10000" by (simp_all add: ceiling_le_iff)
  with round_half_even_bounds[of ?x]
  have "0 \<le> round_half_even ?x" "round_half_even ?x \<le> 10000" by linarith+
  then have "0 \<le> (of_int (round_half_even ?x) :: real)" "(of_int (round_half_even ?x) :: real) \<le> 10000"
    by simp_all
  then show ?thesis by (simp add: round2_def)
qed

text \<open>The contract of two-decimal rounding: \<open>round2\<close> meets it, and it keeps a
  percentage within 0 and 100.\<close>

lemma round_half_even_close: "\<bar>of_int (round_half_even y) - y\<bar> \<le> 1 / 2"
proof -
  have "of_int \<lfloor>y\<rfloor> \<le> y" "y < of_int \<lfloor>y\<rfloor> + 1" by linarith+
  then show ?thesis by (auto simp: round_half_even_def Let_def abs_le_iff)
qed

lemma two_decimals_round2: "two_decimals round2"
proof -
  have "\<bar>round2 x - x\<bar> \<le> 1 / 200" for x
  proof -
    have "\<bar>of_int (round_half_even (x * 100)) - x * 100\<bar> \<le> 1 / 2"
      by (rule round_half_even_close)
    then show ?thesis by (simp add: round2_def abs_le_iff field_simps)
  qed
  moreover have "\<exists>k::int. round2 x = of_int k / 100" for x
    by (auto simp: round2_def)
  ultimately show ?thesis by (simp add: two_decimals_def)
qed

lemma two_decimals_percent_bounds:
  assumes "two_decimals rnd" and "0 \<le> x" and "x \<le> 100"
  shows "0 \<le> rnd x \<and> rnd x \<le> 100"
proof -
  from assms(1) obtain k :: int where k: "rnd x = of_int k / 100" and c: "\<bar>rnd x - x\<bar> \<le> 1 / 200"
    by (auto simp: two_decimals_def)
  from c have "rnd x - x \<le> 1 / 200" "x - rnd x \<le> 1 / 200" by linarith+
  with k assms(2,3) have "- 1 < (of_int k :: real)" "(of_int k :: real) < 10001"
    by linarith+
  then have "- 1 < k" "k < 10001" by linarith+
  then have "0 \<le> k" "k \<le> 10000" by simp_all
  then have "0 \<le> (of_int k :: real)" "(of_int k :: real) \<le> 10000" by simp_all
  then show ?thesis by (simp add: k)
qed

lemma evaluate_model_bounds:
  assumes "evaluate_model sk d name = Inr r"
  shows "0 \<le> accuracy r \<and> accuracy r \<le> 1 \<and> 0 \<le> precision r \<and> precision r \<le> 1 \<and>
         0 \<le> recall r \<and> recall r \<le> 1 \<and> 0 \<le> f1_score r \<and> f1_score r \<le> 1"
proof -
  from assms obtain m y_pred acc rep where
    acc: "accuracy_score (y_test d) y_pred = Inr acc"
    and rep: "classification_report (y_test d) y_pred = Inr rep"
    and r: "r = \<lparr>accuracy = acc, precision = avg_precision rep, recall = avg_recall rep,
            f1_score = avg_f1 rep, model = m, with_scaler = (name = ''Logistic Regression'')\<rparr>"
    by (auto simp: evaluate_model_def then_do_Inr_iff split: prod.splits)
  from rep have rep': "rep = \<lparr>avg_precision = weighted_avg (class_precision (y_test d) y_pred) (y_test d) y_pred,
                avg_recall = weighted_avg (class_recall (y_test d) y_pred) (y_test d) y_pred,
                avg_f1 = weighted_avg (class_f1 (y_test d) y_pred) (y_test d) y_pred\<rparr>"
    by (auto simp: classification_report_def split: if_splits)
  show ?thesis
    using accuracy_score_bounds[OF acc]
      weighted_avg_bounds[of "class_precision (y_test d) y_pred", OF class_precision_bounds]
      weighted_avg_bounds[of "class_recall (y_test d) y_pred", OF class_recall_bounds]
      weighted_avg_bounds[of "class_f1 (y_test d) y_pred", OF class_f1_bounds]
    by (simp add: r rep')
qed

lemma train_loop_unfold:
  "train_loop sk d =
     train_step sk d (train_step sk d loop_init ''Decision Tree'') ''Logistic Regression''"
  by (simp add: train_loop_def model_names_def)

text \<open>The state after the loop, by the outcomes of the two models.\<close>

lemma train_loop_cases:
  "train_loop sk d =
     (case (evaluate_model sk d ''Decision Tree'', evaluate_model sk d ''Logistic Regression'') of
        (Inl e1, Inl e2) \<Rightarrow> loop_init
      | (Inr a, Inl e2) \<Rightarrow>
          \<lparr>results = [(''Decision Tree'', a)],
           best_model = (if 0 < accuracy a then Some (model a) else None),
           best_accuracy = (if 0 < accuracy a then accuracy a else 0)\<rparr>
      | (Inl e1, Inr b) \<Rightarrow>
          \<lparr>results = [(''Logistic Regression'', b)],
           best_model = (if 0 < accuracy b then Some (model b) else None),
           best_accuracy = (if 0 < accuracy b then accuracy b else 0)\<rparr>
      | (Inr a, Inr b) \<Rightarrow>
          \<lparr>results = [(''Decision Tree'', a), (''Logistic Regression'', b)],
           best_model = (if (if 0 < accuracy a then accuracy a else 0) < accuracy b
                         then Some (model b)
                         else if 0 < accuracy a then Some (model a) else None),
           best_accuracy = (if (if 0 < accuracy a then accuracy a else 0) < accuracy b
                            then accuracy b
                            else if 0 < accuracy a then accuracy a else 0)\<rparr>)"
  by (auto simp: train_loop_unfold train_step_def loop_init_def Let_def split: sum.splits)

lemma train_result_of_loop:
  "reaches_loop sk df feats d \<Longrightarrow>
   snd (train_ensemble_models sk df) = select_best sk feats (train_loop sk d)"
  by (auto simp: reaches_loop_def train_ensemble_models_def Let_def)

lemma results_train_loop:
  "(name, r) \<in> set (results (train_loop sk d)) \<Longrightarrow> evaluate_model sk d name = Inr r"
  by (auto simp: train_loop_cases loop_init_def split: sum.splits)

lemma reaches_loop_training:
  "reaches_loop constant_classifiers training_frame training_features training_split"
proof -
  have 1: "\<not> empty training_frame" by code_simp
  have 2: "get_num training_frame ''Close'' = Inr [Num 1, Num 2, Num 1]" by code_simp
  have 3: "training_features =
      available_features (setitem ''Target'' (IntCol (target_column [Num 1, Num 2, Num 1])) training_frame)"
    by code_simp
  have 4: "5 \<le> length training_features" by code_simp
  have 5: "prepare_split constant_classifiers
      (setitem ''Target'' (IntCol (target_column [Num 1, Num 2, Num 1])) training_frame)
      training_features = Inr training_split" by code_simp
  show ?thesis unfolding reaches_loop_def using 1 2 3 4 5 by blast
qed

subsection \<open>C7: model selection\<close>

text \<open>
  C7. When the call reaches the training loop, the returned model is decided by the
  outcomes of the two classifiers, Decision Tree first: the Logistic Regression model is
  returned when its accuracy is strictly higher; the Decision Tree model is kept when its
  accuracy is positive and not lower (so also on a tie); a model that raised is skipped
  and the other one is returned when its accuracy is positive; and when each model either
  raised or has accuracy zero, the result is the empty result \<open>(None, 0, {})\<close>.
\<close>

theorem model_selection:
  assumes reach: "reaches_loop sk df feats d"
    and dt: "evaluate_model sk d ''Decision Tree'' = r1"
    and lr: "evaluate_model sk d ''Logistic Regression'' = r2"
    and res: "snd (train_ensemble_models sk df) = (best, acc, det)"
  shows "(\<forall>a b. r1 = Inr a \<and> r2 = Inr b \<and> accuracy a < accuracy b \<longrightarrow>
            best = Some (model b) \<and> acc = round_2dp sk (accuracy b * 100)) \<and>
         (\<forall>a b. r1 = Inr a \<and> r2 = Inr b \<and> accuracy b \<le> accuracy a \<and> 0 < accuracy a \<longrightarrow>
            best = Some (model a) \<and> acc = round_2dp sk (accuracy a * 100)) \<and>
         (\<forall>a e. r1 = Inr a \<and> r2 = Inl e \<and> 0 < accuracy a \<longrightarrow>
            best = Some (model a) \<and> acc = round_2dp sk (accuracy a * 100)) \<and>
         (\<forall>e b. r1 = Inl e \<and> r2 = Inr b \<and> 0 < accuracy b \<longrightarrow>
            best = Some (model b) \<and> acc = round_2dp sk (accuracy b * 100)) \<and>
         ((\<forall>a. r1 = Inr a \<longrightarrow> accuracy a \<le> 0) \<and> (\<forall>b. r2 = Inr b \<longrightarrow> accuracy b \<le> 0) \<longrightarrow>
            (best, acc, det) = empty_result)"
proof -
  have sel: "(best, acc, det) = select_best sk feats (train_loop sk d)"
    using train_result_of_loop[OF reach] res by simp
  have nonneg: "0 \<le> accuracy a" if "r1 = Inr a" for a
    using evaluate_model_bounds[of sk d "''Decision Tree''" a] that dt by simp
  show ?thesis
    using sel nonneg dt lr
    by (cases r1; cases r2)
       (auto simp: train_loop_cases select_best_def empty_result_def loop_init_def
          split: if_splits)
qed

text \<open>The theorem on the small training run: both models reach accuracy 2/3, and the
  Decision Tree model (number 1) is the one returned.\<close>

theorem model_selection_witness:
  "\<exists>a b. evaluate_model constant_classifiers training_split ''Decision Tree'' = Inr a \<and>
     evaluate_model constant_classifiers training_split ''Logistic Regression'' = Inr b \<and>
     accuracy a = 2/3 \<and> accuracy b = 2/3 \<and> model a = 1 \<and> model b = 2 \<and>
     fst (snd (train_ensemble_models constant_classifiers training_frame)) = Some 1"
proof -
  have "case evaluate_model constant_classifiers training_split ''Decision Tree'' of
          Inl e \<Rightarrow> False | Inr a \<Rightarrow> accuracy a = 2/3 \<and> model a = 1"
    by code_simp
  then obtain a where a: "evaluate_model constant_classifiers training_split ''Decision Tree'' = Inr a"
    "accuracy a = 2/3" "model a = 1"
    by (auto split: sum.splits)
  have "case evaluate_model constant_classifiers training_split ''Logistic Regression'' of
          Inl e \<Rightarrow> False | Inr b \<Rightarrow> accuracy b = 2/3 \<and> model b = 2"
    by code_simp
  then obtain b where b: "evaluate_model constant_classifiers training_split ''Logistic Regression'' = Inr b"
    "accuracy b = 2/3" "model b = 2"
    by (auto split: sum.splits)
  obtain best acc det where
    res: "snd (train_ensemble_models constant_classifiers training_frame) = (best, acc, det)"
    by (cases "snd (train_ensemble_models constant_classifiers training_frame)") auto
  from model_selection[OF reaches_loop_training a(1) b(1) res] a b
  have "best = Some 1" by auto
  with a b res show ?thesis by auto
qed

subsection \<open>C9: the returned accuracy is a percentage, the details hold fractions\<close>

text \<open>
  C9. On every run that returns a model, the returned accuracy is the accuracy of that
  model on the test set, the highest among the trained models, times 100 and rounded to
  two decimals: a multiple of 0.01 at distance at most 0.005 from the product, between 0
  and 100 (which of two equally near multiples is taken is left to the float rounding of
  the program). Every entry of the returned details is the record the metrics produced
  for that model, with accuracy, precision, recall and F1 between 0 and 1.
\<close>

theorem returned_accuracy_is_percentage:
  assumes reach: "reaches_loop sk df feats d"
    and res: "snd (train_ensemble_models sk df) = (Some m, acc, det)"
    and rnd: "two_decimals (round_2dp sk)"
  shows "\<exists>dts. det = Some dts \<and>
           (\<exists>(name, r) \<in> set (model_results dts).
              model r = m \<and> acc = round_2dp sk (accuracy r * 100) \<and>
              (\<exists>k::int. acc = of_int k / 100) \<and> \<bar>acc - accuracy r * 100\<bar> \<le> 1 / 200 \<and>
              (\<forall>(name', r') \<in> set (model_results dts). accuracy r' \<le> accuracy r)) \<and>
           0 \<le> acc \<and> acc \<le> 100 \<and>
           (\<forall>(name, r) \<in> set (model_results dts).
              evaluate_model sk d name = Inr r \<and>
              0 \<le> accuracy r \<and> accuracy r \<le> 1 \<and> 0 \<le> precision r \<and> precision r \<le> 1 \<and>
              0 \<le> recall r \<and> recall r \<le> 1 \<and> 0 \<le> f1_score r \<and> f1_score r \<le> 1)"
proof -
  let ?st = "train_loop sk d"
  have sel: "select_best sk feats ?st = (Some m, acc, det)"
    using train_result_of_loop[OF reach] res by simp
  obtain dts where det: "det = Some dts" and mr: "model_results dts = results ?st"
    and bm: "best_model ?st = Some m" and acc: "acc = round_2dp sk (best_accuracy ?st * 100)"
  proof (cases "best_model ?st")
    case None
    with sel show ?thesis by (simp add: select_best_def empty_result_def)
  next
    case (Some bm)
    with sel that show ?thesis by (auto simp: select_best_def)
  qed
  have each: "evaluate_model sk d name = Inr r \<and>
              0 \<le> accuracy r \<and> accuracy r \<le> 1 \<and> 0 \<le> precision r \<and> precision r \<le> 1 \<and>
              0 \<le> recall r \<and> recall r \<le> 1 \<and> 0 \<le> f1_score r \<and> f1_score r \<le> 1"
    if "(name, r) \<in> set (model_results dts)" for name r
  proof -
    from that mr have "evaluate_model sk d name = Inr r" by (simp add: results_train_loop)
    with evaluate_model_bounds[OF this] show ?thesis by simp
  qed
  have best: "\<exists>(name, r) \<in> set (results ?st).
              model r = m \<and> best_accuracy ?st = accuracy r \<and>
              (\<forall>(name', r') \<in> set (results ?st). accuracy r' \<le> accuracy r)"
    using bm
    by (cases "evaluate_model sk d ''Decision Tree''";
        cases "evaluate_model sk d ''Logistic Regression''")
       (auto simp: train_loop_cases loop_init_def split: if_splits)
  then obtain name r where nr: "(name, r) \<in> set (model_results dts)" "model r = m"
    "best_accuracy ?st = accuracy r" "\<forall>(name', r') \<in> set (model_results dts). accuracy r' \<le> accuracy r"
    unfolding mr by auto
  from each[OF nr(1)] have "0 \<le> accuracy r" "accuracy r \<le> 1" by simp_all
  then have "0 \<le> accuracy r * 100" "accuracy r * 100 \<le> 100" by simp_all
  from two_decimals_percent_bounds[OF rnd this]
  have "0 \<le> acc" "acc \<le> 100" by (simp_all add: acc nr(3))
  then have bounds: "0 \<le> acc \<and> acc \<le> 100" by simp
  have grid: "(\<exists>k::int. acc = of_int k / 100) \<and> \<bar>acc - accuracy r * 100\<bar> \<le> 1 / 200"
    using rnd by (simp add: two_decimals_def acc nr(3))
  have A: "\<exists>(name, r) \<in> set (model_results dts).
              model r = m \<and> acc = round_2dp sk (accuracy r * 100) \<and>
              (\<exists>k::int. acc = of_int k / 100) \<and> \<bar>acc - accuracy r * 100\<bar> \<le> 1 / 200 \<and>
              (\<forall>(name', r') \<in> set (model_results dts). accuracy r' \<le> accuracy r)"
    using nr acc grid by (intro bexI[of _ "(name, r)"]) auto
  have B: "\<forall>(name, r) \<in> set (model_results dts).
              evaluate_model sk d name = Inr r \<and>
              0 \<le> accuracy r \<and> accuracy r \<le> 1 \<and> 0 \<le> precision r \<and> precision r \<le> 1 \<and>
              0 \<le> recall r \<and> recall r \<le> 1 \<and> 0 \<le> f1_score r \<and> f1_score r \<le> 1"
    using each by blast
  from det A bounds B show ?thesis by blast
qed

text \<open>The theorem on the small training run: accuracy 2/3 is returned as 66.67.\<close>

theorem returned_accuracy_is_percentage_witness:
  "\<exists>dts. snd (train_ensemble_models constant_classifiers training_frame) =
            (Some 1, 6667 / 100, Some dts) \<and>
     (\<forall>(name, r) \<in> set (model_results dts).
        evaluate_model constant_classifiers training_split name = Inr r \<and>
        0 \<le> accuracy r \<and> accuracy r \<le> 1 \<and> 0 \<le> precision r \<and> precision r \<le> 1 \<and>
        0 \<le> recall r \<and> recall r \<le> 1 \<and> 0 \<le> f1_score r \<and> f1_score r \<le> 1)"
proof -
  have m: "fst (snd (train_ensemble_models constant_classifiers training_frame)) = Some 1"
    by code_simp
  have a: "fst (snd (snd (train_ensemble_models constant_classifiers training_frame))) = 6667 / 100"
    by code_simp
  obtain det where res: "snd (train_ensemble_models constant_classifiers training_frame) =
            (Some 1, 6667 / 100, det)"
    using m a by (cases "snd (train_ensemble_models constant_classifiers training_frame)") auto
  have rnd: "two_decimals (round_2dp constant_classifiers)"
    using two_decimals_round2 by (simp add: constant_classifiers_def)
  from returned_accuracy_is_percentage[OF reaches_loop_training res rnd] res
  show ?thesis by blast
qed

subsection \<open>C2: the last row is labelled and trained on\<close>


text \<open>
  The same for every input. For a well-formed, non-empty frame with a close column, the
  call assigns the label column with \<open>target[i] = 1\<close> when row \<open>i\<close> has a successor with
  a higher close and \<open>0\<close> otherwise, so the last row is labelled 0. The training data
  are the rows that hold a value in every available feature, in their order; no row is
  excluded for its label, and when the last row holds a value in every available feature
  it is the last row of the training data, with label 0.
\<close>

lemma training_rows_keep_last_bar:
  assumes wf: "wf_frame df" and ne: "\<not> empty df"
    and close: "get_num df ''Close'' = Inr close"
    and run: "train_ensemble_models sk df = (df', res)"
    and feats: "feats = available_features df'"
  shows "getitem df' ''Target'' = Inr (IntCol (target_column close)) \<and>
         (\<forall>i < nrows df. target_column close ! i =
            (if i + 1 < nrows df \<and> fl_gt (close ! (i + 1)) (close ! i) then 1 else 0)) \<and>
         (\<exists>ml_df. ml_frame df' feats = Inr ml_df \<and>
            index ml_df = map ((!) (index df)) (filter (row_complete df feats) [0..<nrows df]) \<and>
            (row_complete df feats (nrows df - 1) \<longrightarrow>
               last (index ml_df) = last (index df) \<and>
               (\<exists>ys. getitem ml_df ''Target'' = Inr (IntCol ys) \<and> last ys = 0)))"
proof -
  have n: "length close = nrows df" by (rule get_num_length[OF wf close])
  from ne have pos: "0 < nrows df" by (simp add: empty_def nrows_def)
  have df': "df' = setitem ''Target'' (IntCol (target_column close)) df"
    using fst_train_ensemble_models[OF ne close, of sk] run by simp
  from ml_frame_rows[OF wf close df' feats] obtain ml_df keep where
    ml: "ml_frame df' feats = Inr ml_df" and lk: "length keep = nrows df"
    and rows: "\<forall>i < nrows df. keep ! i = row_complete df feats i"
    and ix: "index ml_df = select keep (index df)"
    and tcol: "getitem ml_df ''Target'' = Inr (IntCol (select keep (target_column close)))"
    by blast
  have f: "filter ((!) keep) [0..<nrows df] = filter (row_complete df feats) [0..<nrows df]"
    using rows by (intro filter_cong) auto
  have ix': "index ml_df = map ((!) (index df)) (filter (row_complete df feats) [0..<nrows df])"
    using select_conv_nth[of keep "index df"] lk f by (simp add: ix nrows_def)
  have lastrow: "last (index ml_df) = last (index df) \<and>
               (\<exists>ys. getitem ml_df ''Target'' = Inr (IntCol ys) \<and> last ys = 0)"
    if c: "row_complete df feats (nrows df - 1)"
  proof -
    from lk pos have kne: "keep \<noteq> []" by auto
    then have "last keep = keep ! (nrows df - 1)" by (simp add: last_conv_nth lk)
    with rows pos c have lastk: "last keep" by simp
    from pos have ine: "index df \<noteq> []" by (simp add: nrows_def)
    from pos n have cne: "target_column close \<noteq> []" by (metis length_target_column length_0_conv less_numeral_extra(3))
    have 1: "last (index ml_df) = last (index df)"
      unfolding ix using lk lastk ine by (intro last_select) (simp_all add: nrows_def)
    have "last (select keep (target_column close)) = last (target_column close)"
      using lk n lastk cne by (intro last_select) simp_all
    also have "\<dots> = 0" using pos n by (intro last_target_column) auto
    finally show ?thesis using 1 tcol by blast
  qed
  have lab: "\<forall>i < nrows df. target_column close ! i =
            (if i + 1 < nrows df \<and> fl_gt (close ! (i + 1)) (close ! i) then 1 else 0)"
    using n by (simp add: nth_target_column)
  have t: "getitem df' ''Target'' = Inr (IntCol (target_column close))"
    by (simp add: df')
  from t lab ml ix' lastrow show ?thesis by blast
qed

text \<open>On the small training run: the last bar, row 2, holds a value in each
  of the five features, is the last row of the training data and carries the label 0.\<close>

lemma training_rows_keep_last_bar_on_small_run:
  "row_complete training_frame training_features (nrows training_frame - 1) \<and>
   (\<exists>ml_df. ml_frame (fst (train_ensemble_models constant_classifiers training_frame))
               training_features = Inr ml_df \<and>
      last (index ml_df) = 2 \<and>
      (\<exists>ys. getitem ml_df ''Target'' = Inr (IntCol ys) \<and> last ys = 0))"
proof -
  have wf: "wf_frame training_frame" by code_simp
  have ne: "\<not> empty training_frame" by code_simp
  have close: "get_num training_frame ''Close'' = Inr [Num 1, Num 2, Num 1]" by code_simp
  have run: "train_ensemble_models constant_classifiers training_frame =
               (fst (train_ensemble_models constant_classifiers training_frame),
                snd (train_ensemble_models constant_classifiers training_frame))"
    by simp
  have feats: "training_features =
                 available_features (fst (train_ensemble_models constant_classifiers training_frame))"
    by code_simp
  have rc: "row_complete training_frame training_features (nrows training_frame - 1)"
    by code_simp
  have l: "last (index training_frame) = 2" by code_simp
  from training_rows_keep_last_bar[OF wf ne close run feats] rc l
  show ?thesis by auto
qed

section \<open>Properties of the Orchestrator\<close>

lemma run_loop_all_quads:
  assumes "\<forall>(i, ticker) \<in> set its. process_stock st ticker use_mock \<noteq> Triple"
  shows "\<exists>s'. run_loop st use_mock n s its = Completed s'"
  using assms
proof (induction its arbitrary: s)
  case Nil then show ?case by simp
next
  case (Cons it its)
  obtain i ticker where it: "it = (i, ticker)" by (cases it)
  with Cons.prems obtain a b c d where "process_stock st ticker use_mock = Quad a b c d"
    by (cases "process_stock st ticker use_mock") auto
  then obtain s1 where "loop_body st use_mock n s it = Inr s1"
    by (simp add: loop_body_def it Let_def)
  moreover from Cons.prems have "\<forall>(i, ticker) \<in> set its. process_stock st ticker use_mock \<noteq> Triple"
    by simp
  ultimately show ?case using Cons.IH by simp
qed

text \<open>When no ticker yields the tuple of three, the run completes with the progress bar at
  100 percent.\<close>

lemma run_completes_without_triples:
  assumes "\<forall>ticker \<in> set tickers. process_stock st ticker use_mock \<noteq> Triple"
  shows "\<exists>s. run_trading_algorithm st tickers use_mock = Completed s \<and> progress s = 1 \<and>
           results_generated s"
proof -
  from assms have "\<forall>(i, ticker) \<in> set (enumerate 0 tickers). process_stock st ticker use_mock \<noteq> Triple"
    by (auto simp: in_set_enumerate_eq)
  from run_loop_all_quads[OF this] obtain s' where
    "run_loop st use_mock (length tickers) session_init (enumerate 0 tickers) = Completed s'"
    by blast
  then show ?thesis by (simp add: run_trading_algorithm_def)
qed

text \<open>When the first ticker yields the tuple of three, the run is left by ValueError at
  that ticker: no later ticker is processed and the completion flag is not set.\<close>

lemma run_aborts_on_first_triple:
  assumes "process_stock st ticker use_mock = Triple"
  shows "run_trading_algorithm st (ticker # tickers) use_mock =
           Aborted ValueError (session_init\<lparr>progress := 1 / real (length tickers + 1)\<rparr>)"
  using assms by (simp add: run_trading_algorithm_def loop_body_def Let_def)

subsection \<open>C1: a failed ticker aborts the run\<close>

text \<open>
  C1 says that a ticker whose pipeline stage fails is skipped and the run always
  completes with the progress at 100 percent. With two tickers, the Indicator Engine
  returning \<^verbatim>\<open>None\<close> for the first: \<^verbatim>\<open>process_stock\<close> returns the tuple of three, the
  unpacking into four names raises ValueError, and the run is left with the progress at
  one half, no result stored, the second ticker not processed and the completion flag
  unset.
\<close>

theorem run_aborts_on_failed_ticker:
  "process_stock failing_first_stages ''RELIANCE.NS'' True = Triple \<and>
   run_trading_algorithm failing_first_stages [''RELIANCE.NS'', ''TCS.NS''] True =
     Aborted ValueError
       \<lparr>progress = 1 / 2, ml_results = [], charts_shown = [], successful_stocks = 0,
        results_generated = False\<rparr>"
  by code_simp

text \<open>The same stages with the second ticker alone: the run completes.\<close>

lemma run_completes_on_healthy_ticker:
  "run_trading_algorithm failing_first_stages [''TCS.NS''] True =
     Completed
       \<lparr>progress = 1, ml_results = [(''TCS.NS'', 7)], charts_shown = [9],
        successful_stocks = 1, results_generated = True\<rparr>"
  by code_simp

end
